theory Spec2Isabelle
  imports Main "HOL-Library.AList" "HOL-Library.Sublist"
begin

section \<open>Python values and primitives\<close>

text \<open>
  The values \<^verbatim>\<open>json.load\<close> produces: \<^verbatim>\<open>None\<close>, booleans, integers, strings,
  lists and dicts (a dict as its items in insertion order). JSON numbers with a
  fraction or an exponent (Python floats) are outside this model.
\<close>

datatype json =
    JNull
  | JBool bool
  | JNum int
  | JStr string
  | JArr "json list"
  | JObj "(string \<times> json) list"

datatype py_error =
  KeyError | TypeError | AttributeError | IndexError | ValueError | OSError

text \<open>Truth value of a Python object, as tested by \<^verbatim>\<open>if x\<close>, \<^verbatim>\<open>not x\<close>, \<^verbatim>\<open>x and y\<close>.\<close>

fun truthy :: "json \<Rightarrow> bool" where
  "truthy JNull = False"
| "truthy (JBool b) = b"
| "truthy (JNum n) = (n \<noteq> 0)"
| "truthy (JStr s) = (s \<noteq> [])"
| "truthy (JArr xs) = (xs \<noteq> [])"
| "truthy (JObj kvs) = (kvs \<noteq> [])"

text \<open>\<^verbatim>\<open>d.get(k)\<close> and \<^verbatim>\<open>d.get(k, default)\<close>: only a dict has the method.\<close>

fun py_get_default :: "json \<Rightarrow> string \<Rightarrow> json \<Rightarrow> py_error + json" where
  "py_get_default (JObj kvs) k d = Inr (case map_of kvs k of None \<Rightarrow> d | Some v \<Rightarrow> v)"
| "py_get_default _ k d = Inl AttributeError"

definition py_get :: "json \<Rightarrow> string \<Rightarrow> py_error + json" where
  "py_get j k = py_get_default j k JNull"

text \<open>\<^verbatim>\<open>x[k]\<close> with a string key: a dict looks it up, everything else refuses it.\<close>

fun py_getitem :: "json \<Rightarrow> string \<Rightarrow> py_error + json" where
  "py_getitem (JObj kvs) k = (case map_of kvs k of None \<Rightarrow> Inl KeyError | Some v \<Rightarrow> Inr v)"
| "py_getitem _ k = Inl TypeError"

text \<open>\<^verbatim>\<open>d.values()\<close> and \<^verbatim>\<open>d.items()\<close>.\<close>

fun py_values :: "json \<Rightarrow> py_error + json list" where
  "py_values (JObj kvs) = Inr (map snd kvs)"
| "py_values _ = Inl AttributeError"

fun py_items :: "json \<Rightarrow> py_error + (string \<times> json) list" where
  "py_items (JObj kvs) = Inr kvs"
| "py_items _ = Inl AttributeError"

text \<open>
  What the module prints, one constructor for each \<^verbatim>\<open>print\<close> statement, carrying the
  values it interpolates.
\<close>

datatype log_msg =
    RosterLoaded nat
  | RosterNotFound
  | RosterInvalidJSON
  | FoundSource "string option" string
  | NoSourceWithPrefix string
  | SourceNotFound string
  | Clearing string
  | UpdatedUrl string json
  | TextSourceNotFound string
  | UpdatedText string string
  | ExecutingTransition string string
  | Team1NotFound string
  | Team2NotFound string
  | TransitionComplete
  | CredentialsSet string string
  | ApiKeyNotSet
  | HttpErrorLog
  | HttpErrorDetails string
  | UrlErrorLog
  | JsonDecodeErrorLog
  | UnexpectedErrorLog
  | TournamentIdNotSet
  | LoadedParticipants nat
  | LoadedMatches nat

section \<open>Teams and the roster (match_scene_handler.py)\<close>

text \<open>
  \<^verbatim>\<open>class Team\<close>: a name and four positions, each \<^verbatim>\<open>None\<close> or a tuple. The
  constructor stores what it is given, so a tuple has whatever length and members
  the caller passed.
\<close>

record Team =
  name :: string
  helm :: "json list option"
  flex :: "json list option"
  mc :: "json list option"
  bilge :: "json list option"

text \<open>
  One position argument of the \<^verbatim>\<open>Team(...)\<close> call in \<^verbatim>\<open>load_roster\<close>:
  \<^verbatim>\<open>tuple(team_data[k].values()) if team_data.get(k) and team_data[k].get("name") else None\<close>.
\<close>

definition slot_tup :: "json \<Rightarrow> string \<Rightarrow> py_error + json list option" where
  "slot_tup team_data k =
     (case py_get team_data k of
        Inl e \<Rightarrow> Inl e
      | Inr r \<Rightarrow>
          if \<not> truthy r then Inr None
          else (case py_get r ''name'' of
                  Inl e \<Rightarrow> Inl e
                | Inr n \<Rightarrow>
                    if \<not> truthy n then Inr None
                    else (case py_values r of
                            Inl e \<Rightarrow> Inl e
                          | Inr vs \<Rightarrow> Inr (Some vs))))"

text \<open>
  The \<^verbatim>\<open>Team(...)\<close> expression of the loop body; the keyword arguments are evaluated
  in the order they are written: helm, mc, flex, bilge.
\<close>

definition make_team :: "string \<Rightarrow> json \<Rightarrow> py_error + Team" where
  "make_team team_name team_data =
     (case slot_tup team_data ''helm'' of Inl e \<Rightarrow> Inl e | Inr h \<Rightarrow>
     (case slot_tup team_data ''mc'' of Inl e \<Rightarrow> Inl e | Inr m \<Rightarrow>
     (case slot_tup team_data ''flex'' of Inl e \<Rightarrow> Inl e | Inr f \<Rightarrow>
     (case slot_tup team_data ''bilge'' of Inl e \<Rightarrow> Inl e | Inr b \<Rightarrow>
        Inr \<lparr>name = team_name, helm = h, flex = f, mc = m, bilge = b\<rparr>))))"

text \<open>
  The module state: the roster dict (items in insertion order), the host's sources
  (declared below) and the printed lines.
\<close>

record source =
  src_name :: string
  settings :: "(string \<times> string) list"

record world =
  TEAM_ROSTER :: "(string \<times> Team) list"
  obs_sources :: "source list"
  stdout :: "log_msg list"

definition print :: "log_msg \<Rightarrow> world \<Rightarrow> world" where
  "print m w = w\<lparr>stdout := stdout w @ [m]\<rparr>"

text \<open>
  The loop \<^verbatim>\<open>for team_name, team_data in data["teams"].items()\<close>: an exception
  leaves the roster as far as it was filled.
\<close>

fun load_teams :: "(string \<times> json) list \<Rightarrow> world \<Rightarrow> world \<times> py_error option" where
  "load_teams [] w = (w, None)"
| "load_teams ((team_name, team_data) # rest) w =
     (case make_team team_name team_data of
        Inl e \<Rightarrow> (w, Some e)
      | Inr t \<Rightarrow> load_teams rest (w\<lparr>TEAM_ROSTER := AList.update team_name t (TEAM_ROSTER w)\<rparr>))"

text \<open>
  What \<^verbatim>\<open>open\<close> and \<^verbatim>\<open>json.load\<close> did: the two exceptions \<^verbatim>\<open>load_roster\<close>
  catches, any other exception of reading the file (which it lets through), or the
  decoded document.
\<close>

datatype file_outcome =
    FileNotFoundError
  | JSONDecodeError
  | OtherReadError py_error
  | Loaded json

definition load_roster :: "file_outcome \<Rightarrow> world \<Rightarrow> world \<times> py_error option" where
  "load_roster f w =
     (case f of
        FileNotFoundError \<Rightarrow> (print RosterNotFound w, None)
      | JSONDecodeError \<Rightarrow> (print RosterInvalidJSON w, None)
      | OtherReadError e \<Rightarrow> (w, Some e)
      | Loaded data \<Rightarrow>
          (let w1 = w\<lparr>TEAM_ROSTER := []\<rparr> in
           case py_getitem data ''teams'' of
             Inl e \<Rightarrow> (w1, Some e)
           | Inr teams \<Rightarrow>
               (case py_items teams of
                  Inl e \<Rightarrow> (w1, Some e)
                | Inr kvs \<Rightarrow>
                    (case load_teams kvs w1 of
                       (w2, Some e) \<Rightarrow> (w2, Some e)
                     | (w2, None) \<Rightarrow>
                         (print (RosterLoaded (length (TEAM_ROSTER w2))) w2, None)))))"

definition get_team :: "world \<Rightarrow> string \<Rightarrow> Team option" where
  "get_team w team_name = map_of (TEAM_ROSTER w) team_name"

section \<open>Helper functions of match_scene_handler.py\<close>

text \<open>
  \<^verbatim>\<open>build_twitch_url(channel)\<close>: the empty string for a falsy channel, otherwise
  the three f-string pieces concatenated around the channel.
\<close>

definition build_twitch_url :: "string \<Rightarrow> string" where
  "build_twitch_url channel =
     (if channel = [] then ''''
      else ''https://player.twitch.tv/?channel='' @ channel
           @ ''&enableExtensions=true&muted=false&parent=twitch.tv''
           @ ''&player=popout&quality=480p30&volume=0.69'')"

text \<open>
  \<^verbatim>\<open>get_twitch_link\<close> and \<^verbatim>\<open>get_player_name\<close>: \<^verbatim>\<open>None\<close> for no position,
  otherwise \<^verbatim>\<open>position_tup[1]\<close> and \<^verbatim>\<open>position_tup[0]\<close>, which raise IndexError on
  a tuple that is too short.
\<close>

definition get_twitch_link :: "json list option \<Rightarrow> py_error + json" where
  "get_twitch_link position_tup =
     (case position_tup of
        None \<Rightarrow> Inr JNull
      | Some tup \<Rightarrow> if 1 < length tup then Inr (tup ! 1) else Inl IndexError)"

definition get_player_name :: "json list option \<Rightarrow> py_error + json" where
  "get_player_name position_tup =
     (case position_tup of
        None \<Rightarrow> Inr JNull
      | Some tup \<Rightarrow> if 0 < length tup then Inr (tup ! 0) else Inl IndexError)"

section \<open>Source configuration and the host's sources (match_scene_handler.py)\<close>

definition T1_NAME_SOURCE :: string where "T1_NAME_SOURCE = ''Team 1''"
definition T2_NAME_SOURCE :: string where "T2_NAME_SOURCE = ''Team 2''"

definition T1_HELM_PREFIX :: string where "T1_HELM_PREFIX = ''T1H -''"
definition T1_MC_PREFIX :: string where "T1_MC_PREFIX = ''T1MC -''"
definition T1_FLEX_PREFIX :: string where "T1_FLEX_PREFIX = ''T1F -''"
definition T1_BILGE_PREFIX :: string where "T1_BILGE_PREFIX = ''T1B -''"

definition T2_HELM_PREFIX :: string where "T2_HELM_PREFIX = ''T2H -''"
definition T2_MC_PREFIX :: string where "T2_MC_PREFIX = ''T2MC -''"
definition T2_FLEX_PREFIX :: string where "T2_FLEX_PREFIX = ''T2F -''"
definition T2_BILGE_PREFIX :: string where "T2_BILGE_PREFIX = ''T2B -''"

text \<open>
  The host application, as the module uses it: \<^verbatim>\<open>obs_enum_sources\<close> lists the
  sources in a fixed order, \<^verbatim>\<open>obs_get_source_by_name\<close> hands out the first source of
  that name (a handle is its place in the list), \<^verbatim>\<open>obs_source_set_name\<close> renames a
  source and \<^verbatim>\<open>obs_source_update\<close> merges one string setting into it. Creating and
  releasing handles and settings objects leaves no trace.
\<close>

fun first_index :: "('a \<Rightarrow> bool) \<Rightarrow> 'a list \<Rightarrow> nat option" where
  "first_index P [] = None"
| "first_index P (x # xs) = (if P x then Some 0 else map_option Suc (first_index P xs))"

definition obs_get_source_by_name :: "world \<Rightarrow> string \<Rightarrow> nat option" where
  "obs_get_source_by_name w source_name =
     first_index (\<lambda>s. src_name s = source_name) (obs_sources w)"

definition obs_source_set_name :: "nat \<Rightarrow> string \<Rightarrow> world \<Rightarrow> world" where
  "obs_source_set_name h new_name w =
     w\<lparr>obs_sources := (obs_sources w)[h := (obs_sources w ! h)\<lparr>src_name := new_name\<rparr>]\<rparr>"

definition obs_source_update :: "nat \<Rightarrow> string \<Rightarrow> string \<Rightarrow> world \<Rightarrow> world" where
  "obs_source_update h key val w =
     w\<lparr>obs_sources := (obs_sources w)
          [h := (obs_sources w ! h)\<lparr>settings := AList.update key val (settings (obs_sources w ! h))\<rparr>]\<rparr>"

text \<open>
  A value inside an f-string: a string stands for itself; what \<^verbatim>\<open>str\<close> makes of any
  other value is the parameter \<open>str_of\<close>.
\<close>

definition py_str :: "(json \<Rightarrow> string) \<Rightarrow> json \<Rightarrow> string" where
  "py_str str_of v = (case v of JStr s \<Rightarrow> s | _ \<Rightarrow> str_of v)"

text \<open>
  \<^verbatim>\<open>find_source_by_prefix\<close>: the name of the first source whose name is non-empty and
  starts with the prefix.
\<close>

definition find_source_by_prefix :: "world \<Rightarrow> string \<Rightarrow> string option" where
  "find_source_by_prefix w pfx =
     map_option src_name
       (List.find (\<lambda>s. src_name s \<noteq> [] \<and> prefix pfx (src_name s)) (obs_sources w))"

text \<open>
  \<^verbatim>\<open>set_browser_source_url\<close>; \<^verbatim>\<open>None\<close> for the player name or the channel is
  \<open>JNull\<close>. The channel reaches \<open>build_twitch_url\<close> only when it is truthy.
\<close>

definition set_browser_source_url ::
  "(json \<Rightarrow> string) \<Rightarrow> world \<Rightarrow> string \<Rightarrow> json \<Rightarrow> json \<Rightarrow> world" where
  "set_browser_source_url str_of w pfx player_name twitch_username =
     (if pfx = [] then w
      else
        (let source_name = find_source_by_prefix w pfx;
             w1 = print (FoundSource source_name pfx) w
         in case source_name of
              None \<Rightarrow> print (NoSourceWithPrefix pfx) w1
            | Some nm \<Rightarrow>
                if nm = [] then print (NoSourceWithPrefix pfx) w1
                else
                  (case obs_get_source_by_name w1 nm of
                     None \<Rightarrow> print (SourceNotFound nm) w1
                   | Some h \<Rightarrow>
                       (let new_name =
                              (if truthy player_name then pfx @ '' '' @ py_str str_of player_name
                               else pfx);
                            w2 = obs_source_set_name h new_name w1
                        in if \<not> truthy twitch_username then
                             obs_source_update h ''url'' [] (print (Clearing new_name) w2)
                           else
                             obs_source_update h ''url''
                               (build_twitch_url (py_str str_of twitch_username))
                               (print (UpdatedUrl new_name twitch_username) w2)))))"

definition set_text_source :: "world \<Rightarrow> string \<Rightarrow> string \<Rightarrow> world" where
  "set_text_source w source_name text =
     (if source_name = [] then w
      else
        (case obs_get_source_by_name w source_name of
           None \<Rightarrow> print (TextSourceNotFound source_name) w
         | Some h \<Rightarrow>
             print (UpdatedText source_name text) (obs_source_update h ''text'' text w)))"

text \<open>
  One of the four \<^verbatim>\<open>set_browser_source_url(obs, prefix, get_player_name(p),
  get_twitch_link(p))\<close> lines of \<^verbatim>\<open>apply_team_to_sources\<close>: the arguments are
  evaluated first, and an exception of theirs leaves the sources as they are.
\<close>

definition apply_position ::
  "(json \<Rightarrow> string) \<Rightarrow> world \<Rightarrow> string \<Rightarrow> json list option \<Rightarrow> world \<times> py_error option" where
  "apply_position str_of w pfx position_tup =
     (case get_player_name position_tup of
        Inl e \<Rightarrow> (w, Some e)
      | Inr player_name \<Rightarrow>
          (case get_twitch_link position_tup of
             Inl e \<Rightarrow> (w, Some e)
           | Inr twitch_link \<Rightarrow>
               (set_browser_source_url str_of w pfx player_name twitch_link, None)))"

definition apply_team_to_sources ::
  "(json \<Rightarrow> string) \<Rightarrow> world \<Rightarrow> Team \<Rightarrow> string \<Rightarrow> string \<Rightarrow> string \<Rightarrow> string \<Rightarrow> string
     \<Rightarrow> world \<times> py_error option" where
  "apply_team_to_sources str_of w team name_source helm_prefix mc_prefix flex_prefix bilge_prefix =
     (let w0 = set_text_source w name_source (name team) in
      case apply_position str_of w0 helm_prefix (helm team) of
        (w1, Some e) \<Rightarrow> (w1, Some e)
      | (w1, None) \<Rightarrow>
     (case apply_position str_of w1 mc_prefix (mc team) of
        (w2, Some e) \<Rightarrow> (w2, Some e)
      | (w2, None) \<Rightarrow>
     (case apply_position str_of w2 flex_prefix (flex team) of
        (w3, Some e) \<Rightarrow> (w3, Some e)
      | (w3, None) \<Rightarrow> apply_position str_of w3 bilge_prefix (bilge team))))"

text \<open>
  \<^verbatim>\<open>execute_transition\<close>. A \<open>Team\<close> object is always truthy, so \<^verbatim>\<open>if team1:\<close> asks
  whether the name was found.
\<close>

definition execute_transition ::
  "(json \<Rightarrow> string) \<Rightarrow> world \<Rightarrow> string \<Rightarrow> string \<Rightarrow> world \<times> py_error option" where
  "execute_transition str_of w team1_name team2_name =
     (let w0 = print (ExecutingTransition team1_name team2_name) w in
      case (case get_team w0 team1_name of
              Some team1 \<Rightarrow>
                apply_team_to_sources str_of w0 team1 T1_NAME_SOURCE T1_HELM_PREFIX
                  T1_MC_PREFIX T1_FLEX_PREFIX T1_BILGE_PREFIX
            | None \<Rightarrow> (print (Team1NotFound team1_name) w0, None)) of
        (w1, Some e) \<Rightarrow> (w1, Some e)
      | (w1, None) \<Rightarrow>
     (case (case get_team w1 team2_name of
              Some team2 \<Rightarrow>
                apply_team_to_sources str_of w1 team2 T2_NAME_SOURCE T2_HELM_PREFIX
                  T2_MC_PREFIX T2_FLEX_PREFIX T2_BILGE_PREFIX
            | None \<Rightarrow> (print (Team2NotFound team2_name) w1, None)) of
        (w2, Some e) \<Rightarrow> (w2, Some e)
      | (w2, None) \<Rightarrow> (print TransitionComplete w2, None)))"

section \<open>Notions used in the properties\<close>

text \<open>
  The slot's record is missing, or its \<^verbatim>\<open>"name"\<close> is missing or empty
  (\<^verbatim>\<open>""\<close>, or another falsy value such as \<^verbatim>\<open>null\<close>).
\<close>

definition slot_unnamed :: "(string \<times> json) list \<Rightarrow> string \<Rightarrow> bool" where
  "slot_unnamed kvs k =
     (case map_of kvs k of
        None \<Rightarrow> True
      | Some (JObj fs) \<Rightarrow> (case map_of fs ''name'' of None \<Rightarrow> True | Some n \<Rightarrow> \<not> truthy n)
      | Some r \<Rightarrow> True)"

definition slot_values :: "(string \<times> json) list \<Rightarrow> string \<Rightarrow> json list" where
  "slot_values kvs k =
     (case map_of kvs k of Some (JObj fs) \<Rightarrow> map snd fs | _ \<Rightarrow> [])"

text \<open>
  A source matches a prefix as \<open>find_source_by_prefix\<close> tests it; exactly one source
  of a list matches a prefix.
\<close>

definition matches_prefix :: "string \<Rightarrow> source \<Rightarrow> bool" where
  "matches_prefix pfx s = (src_name s \<noteq> [] \<and> prefix pfx (src_name s))"

definition unique_match :: "string \<Rightarrow> source list \<Rightarrow> bool" where
  "unique_match pfx xs = (length (filter (matches_prefix pfx) xs) = 1)"

text \<open>The position of a Team that the loader fills from the slot \<open>k\<close> of its record.\<close>

definition team_position :: "string \<Rightarrow> Team \<Rightarrow> json list option" where
  "team_position k t =
     (if k = ''helm'' then helm t else if k = ''mc'' then mc t
      else if k = ''flex'' then flex t else bilge t)"

text \<open>A position whose tuple has fewer than the two members the accessors read.\<close>

definition position_short :: "json list option \<Rightarrow> bool" where
  "position_short p = (case p of None \<Rightarrow> False | Some tup \<Rightarrow> length tup < 2)"

text \<open>The sources of one side: its team-name text source and those under its prefixes.\<close>

definition side1_source :: "source \<Rightarrow> bool" where
  "side1_source s =
     (src_name s = T1_NAME_SOURCE \<or> prefix T1_HELM_PREFIX (src_name s)
      \<or> prefix T1_MC_PREFIX (src_name s) \<or> prefix T1_FLEX_PREFIX (src_name s)
      \<or> prefix T1_BILGE_PREFIX (src_name s))"

definition side2_source :: "source \<Rightarrow> bool" where
  "side2_source s =
     (src_name s = T2_NAME_SOURCE \<or> prefix T2_HELM_PREFIX (src_name s)
      \<or> prefix T2_MC_PREFIX (src_name s) \<or> prefix T2_FLEX_PREFIX (src_name s)
      \<or> prefix T2_BILGE_PREFIX (src_name s))"

text \<open>
  From one list of sources to the next, the sources picked out by \<open>Q\<close> (before or
  after) are untouched: same place, same name, same settings.
\<close>

definition keeps :: "(source \<Rightarrow> bool) \<Rightarrow> source list \<Rightarrow> source list \<Rightarrow> bool" where
  "keeps Q xs ys \<longleftrightarrow>
     length ys = length xs \<and> (\<forall>i<length xs. Q (xs ! i) \<or> Q (ys ! i) \<longrightarrow> ys ! i = xs ! i)"

text \<open>
  What \<open>set_browser_source_url\<close> and \<open>set_text_source\<close> do to the list of sources,
  apart from printing: the name and URL written for a position, and the two updates.
\<close>

definition position_name :: "(json \<Rightarrow> string) \<Rightarrow> string \<Rightarrow> json \<Rightarrow> string" where
  "position_name str_of pfx player_name =
     (if truthy player_name then pfx @ '' '' @ py_str str_of player_name else pfx)"

definition position_url :: "(json \<Rightarrow> string) \<Rightarrow> json \<Rightarrow> string" where
  "position_url str_of twitch_username =
     (if \<not> truthy twitch_username then [] else build_twitch_url (py_str str_of twitch_username))"

definition browser_write :: "string \<Rightarrow> string \<Rightarrow> source \<Rightarrow> source" where
  "browser_write n u s = s\<lparr>src_name := n, settings := AList.update ''url'' u (settings s)\<rparr>"

definition browser_step :: "string \<Rightarrow> string \<Rightarrow> string \<Rightarrow> source list \<Rightarrow> source list" where
  "browser_step pfx n u xs =
     (if pfx = [] then xs
      else (case first_index (matches_prefix pfx) xs of
              None \<Rightarrow> xs
            | Some i \<Rightarrow> xs[i := browser_write n u (xs ! i)]))"

definition text_step :: "string \<Rightarrow> string \<Rightarrow> source list \<Rightarrow> source list" where
  "text_step source_name text xs =
     (if source_name = [] then xs
      else (case first_index (\<lambda>s. src_name s = source_name) xs of
              None \<Rightarrow> xs
            | Some i \<Rightarrow> xs[i := (xs ! i)\<lparr>settings := AList.update ''text'' text (settings (xs ! i))\<rparr>]))"

fun run_steps :: "(string \<times> string \<times> string) list \<Rightarrow> source list \<Rightarrow> source list" where
  "run_steps [] xs = xs"
| "run_steps ((pfx, n, u) # steps) xs = run_steps steps (browser_step pfx n u xs)"

text \<open>
  Two sources that differ at most in what \<open>browser_write\<close> overwrites (the name and
  the \<^verbatim>\<open>"url"\<close> setting).
\<close>

definition same_base :: "source \<Rightarrow> source \<Rightarrow> bool" where
  "same_base a b \<longleftrightarrow> (\<forall>n u. browser_write n u a = browser_write n u b)"

text \<open>
  A list of sources reached from \<open>xs0\<close> by browser steps for prefixes in \<open>P\<close>: it
  has the places of \<open>xs0\<close>, a source matching a prefix of \<open>P\<close> sits where that
  prefix's first match sits in \<open>xs0\<close>, and every source is its original up to name
  and URL.
\<close>

definition anchored :: "string set \<Rightarrow> source list \<Rightarrow> source list \<Rightarrow> bool" where
  "anchored P xs0 xs \<longleftrightarrow>
     length xs = length xs0
   \<and> (\<forall>p\<in>P. \<forall>i<length xs. matches_prefix p (xs ! i) \<longrightarrow>
          first_index (matches_prefix p) xs0 = Some i)
   \<and> (\<forall>i<length xs. same_base (xs0 ! i) (xs ! i))"

text \<open>
  A first run of the steps at \<open>s\<close> and a second run at \<open>t\<close>, the second started
  from the first run's result \<open>fin\<close>; \<open>D\<close> holds the prefixes and names of the
  steps taken so far. A source of \<open>s\<close> has its original name or one written by a step
  of \<open>D\<close>; a source of \<open>t\<close> either agrees with \<open>s\<close>, or is still as in \<open>fin\<close> and
  matched none of the prefixes of \<open>D\<close> that belong to its place.
\<close>

definition coupled ::
  "string set \<Rightarrow> source list \<Rightarrow> source list \<Rightarrow> (string \<times> string) set
     \<Rightarrow> source list \<Rightarrow> source list \<Rightarrow> bool" where
  "coupled P xs0 fin D s t \<longleftrightarrow>
     anchored P xs0 s \<and> anchored P xs0 t \<and> anchored P xs0 fin
   \<and> (\<forall>(p, n)\<in>D. p \<in> P \<and> p \<noteq> [] \<and> prefix p n)
   \<and> (\<forall>i<length xs0. src_name (s ! i) = src_name (xs0 ! i)
          \<or> (\<exists>(p, n)\<in>D. first_index (matches_prefix p) xs0 = Some i \<and> src_name (s ! i) = n))
   \<and> (\<forall>i<length xs0. t ! i = s ! i
          \<or> (t ! i = fin ! i
              \<and> (\<forall>(p, n)\<in>D. first_index (matches_prefix p) xs0 = Some i
                    \<longrightarrow> \<not> matches_prefix p (fin ! i))))"

text \<open>
  The positions \<open>apply_team_to_sources\<close> gets to: those before the first one that
  is too short.
\<close>

definition team_steps ::
  "(json \<Rightarrow> string) \<Rightarrow> Team \<Rightarrow> string \<Rightarrow> string \<Rightarrow> string \<Rightarrow> string \<Rightarrow> (string \<times> string \<times> string) list" where
  "team_steps str_of team helm_prefix mc_prefix flex_prefix bilge_prefix =
     map (\<lambda>(pfx, tup).
            (pfx, position_name str_of pfx (case tup of None \<Rightarrow> JNull | Some vs \<Rightarrow> vs ! 0),
                  position_url str_of (case tup of None \<Rightarrow> JNull | Some vs \<Rightarrow> vs ! 1)))
       (takeWhile (\<lambda>(pfx, tup). \<not> position_short tup)
          [(helm_prefix, helm team), (mc_prefix, mc team),
           (flex_prefix, flex team), (bilge_prefix, bilge team)])"

text \<open>
  Stand-ins for the two built-ins in worked examples that format strings only and
  convert integers only.
\<close>

definition str_of_none :: "json \<Rightarrow> string" where
  "str_of_none v = []"

definition int_of_none :: "string \<Rightarrow> int option" where
  "int_of_none s = None"

section \<open>The bracket client (bracket_handler.py)\<close>

text \<open>Further primitives the bracket client uses on decoded JSON.\<close>

text \<open>\<^verbatim>\<open>k in x\<close> for a string \<open>k\<close>: a key of a dict, a member of a list, a substring of a string.\<close>

fun py_contains :: "json \<Rightarrow> string \<Rightarrow> py_error + bool" where
  "py_contains (JObj kvs) k = Inr (k \<in> set (map fst kvs))"
| "py_contains (JArr xs) k = Inr (JStr k \<in> set xs)"
| "py_contains (JStr s) k = Inr (sublist k s)"
| "py_contains _ k = Inl TypeError"

text \<open>\<^verbatim>\<open>for p in x\<close>: the members of a list, the keys of a dict, the characters of a string.\<close>

fun py_iter :: "json \<Rightarrow> py_error + json list" where
  "py_iter (JArr xs) = Inr xs"
| "py_iter (JObj kvs) = Inr (map (\<lambda>kv. JStr (fst kv)) kvs)"
| "py_iter (JStr s) = Inr (map (\<lambda>c. JStr [c]) s)"
| "py_iter _ = Inl TypeError"

fun py_len :: "json \<Rightarrow> py_error + nat" where
  "py_len (JArr xs) = Inr (length xs)"
| "py_len (JObj kvs) = Inr (length kvs)"
| "py_len (JStr s) = Inr (length s)"
| "py_len _ = Inl TypeError"

text \<open>
  \<^verbatim>\<open>x[i]\<close> with a non-negative integer index; a decoded JSON dict has string keys
  only, so the integer is never one of them.
\<close>

fun py_index :: "json \<Rightarrow> nat \<Rightarrow> py_error + json" where
  "py_index (JArr xs) i = (if i < length xs then Inr (xs ! i) else Inl IndexError)"
| "py_index (JStr s) i = (if i < length s then Inr (JStr [s ! i]) else Inl IndexError)"
| "py_index (JObj kvs) i = Inl KeyError"
| "py_index _ i = Inl TypeError"

text \<open>
  \<^verbatim>\<open>int(x)\<close>. What the built-in makes of a string (its value, or \<^verbatim>\<open>ValueError\<close>
  for \<open>None\<close>) is the parameter \<open>int_of_str\<close>.
\<close>

fun py_int :: "(string \<Rightarrow> int option) \<Rightarrow> json \<Rightarrow> py_error + int" where
  "py_int int_of_str (JNum n) = Inr n"
| "py_int int_of_str (JBool b) = Inr (if b then 1 else 0)"
| "py_int int_of_str (JStr s) =
     (case int_of_str s of None \<Rightarrow> Inl ValueError | Some n \<Rightarrow> Inr n)"
| "py_int int_of_str _ = Inl TypeError"

text \<open>
  \<^verbatim>\<open>d.get(k, None)\<close> on a dict with integer keys: \<^verbatim>\<open>True\<close> and \<^verbatim>\<open>False\<close> hash
  and compare as 1 and 0, a list or a dict is unhashable.
\<close>

fun dict_get :: "(int \<times> json) list \<Rightarrow> json \<Rightarrow> py_error + json" where
  "dict_get d (JNum n) = Inr (case map_of d n of None \<Rightarrow> JNull | Some v \<Rightarrow> v)"
| "dict_get d (JBool b) =
     Inr (case map_of d (if b then 1 else 0) of None \<Rightarrow> JNull | Some v \<Rightarrow> v)"
| "dict_get d JNull = Inr JNull"
| "dict_get d (JStr s) = Inr JNull"
| "dict_get d _ = Inl TypeError"

text \<open>The decimal digits of a Python \<^verbatim>\<open>int\<close> inside an f-string.\<close>

definition digit_char :: "nat \<Rightarrow> char" where
  "digit_char d = ''0123456789'' ! d"

function show_nat :: "nat \<Rightarrow> string" where
  "show_nat n = (if n < 10 then [digit_char n] else show_nat (n div 10) @ [digit_char (n mod 10)])"
  by pat_completeness auto
termination
  by (relation "measure (\<lambda>n. n)") auto

declare show_nat.simps [simp del]

definition show_int :: "int \<Rightarrow> string" where
  "show_int i = (if i < 0 then ''-'' @ show_nat (nat (- i)) else show_nat (nat i))"

text \<open>
  The module globals: credentials, the participant dict, the match dict (a pair of
  names for each play order, \<^verbatim>\<open>None\<close> being \<open>JNull\<close>), and the printed lines.
\<close>

record bracket =
  API_KEY :: string
  TOURNAMENT_ID :: string
  PARTICIPANTS :: "(int \<times> json) list"
  MATCHES :: "(int \<times> json \<times> json) list"
  printed :: "log_msg list"

definition bprint :: "log_msg \<Rightarrow> bracket \<Rightarrow> bracket" where
  "bprint m b = b\<lparr>printed := printed b @ [m]\<rparr>"

definition set_credentials :: "string \<Rightarrow> string \<Rightarrow> bracket \<Rightarrow> bracket" where
  "set_credentials api_key tournament_id b =
     bprint (CredentialsSet api_key tournament_id)
       (b\<lparr>API_KEY := api_key, TOURNAMENT_ID := tournament_id\<rparr>)"

text \<open>
  What \<^verbatim>\<open>urlopen\<close>, \<^verbatim>\<open>read\<close> and \<^verbatim>\<open>json.loads\<close> did for a URL: one of the four
  exceptions \<^verbatim>\<open>_api_request\<close> catches (an HTTP error with its body, when that could
  be read), or the decoded document.
\<close>

datatype http_outcome =
    HTTPError "string option"
  | URLError
  | DecodeError
  | OtherException
  | Response json

text \<open>
  \<^verbatim>\<open>_api_request(endpoint)\<close>, with the default \<^verbatim>\<open>method\<close> and \<^verbatim>\<open>data\<close> of its
  two callers; \<^verbatim>\<open>None\<close> is \<open>JNull\<close>.
\<close>

definition api_request ::
  "(string \<Rightarrow> http_outcome) \<Rightarrow> string \<Rightarrow> bracket \<Rightarrow> bracket \<times> json" where
  "api_request net endpoint b =
     (if API_KEY b = [] then (bprint ApiKeyNotSet b, JNull)
      else (case net (''https://api.challonge.com/v2.1'' @ endpoint) of
              Response j \<Rightarrow> (b, j)
            | HTTPError body \<Rightarrow>
                (case body of
                   Some details \<Rightarrow> (bprint (HttpErrorDetails details) (bprint HttpErrorLog b), JNull)
                 | None \<Rightarrow> (bprint HttpErrorLog b, JNull))
            | URLError \<Rightarrow> (bprint UrlErrorLog b, JNull)
            | DecodeError \<Rightarrow> (bprint JsonDecodeErrorLog b, JNull)
            | OtherException \<Rightarrow> (bprint UnexpectedErrorLog b, JNull)))"

text \<open>
  The dict comprehension of \<^verbatim>\<open>get_participants\<close>: the key \<^verbatim>\<open>int(p["id"])\<close> is
  evaluated before the value \<^verbatim>\<open>p["attributes"]["name"]\<close>.
\<close>

fun participants_dict ::
  "(string \<Rightarrow> int option) \<Rightarrow> json list \<Rightarrow> (int \<times> json) list \<Rightarrow> py_error + (int \<times> json) list" where
  "participants_dict int_of_str [] acc = Inr acc"
| "participants_dict int_of_str (p # ps) acc =
     (case py_getitem p ''id'' of Inl e \<Rightarrow> Inl e | Inr i \<Rightarrow>
     (case py_int int_of_str i of Inl e \<Rightarrow> Inl e | Inr k \<Rightarrow>
     (case py_getitem p ''attributes'' of Inl e \<Rightarrow> Inl e | Inr a \<Rightarrow>
     (case py_getitem a ''name'' of Inl e \<Rightarrow> Inl e | Inr n \<Rightarrow>
        participants_dict int_of_str ps (AList.update k n acc)))))"

definition get_participants ::
  "(string \<Rightarrow> int option) \<Rightarrow> (string \<Rightarrow> http_outcome) \<Rightarrow> bracket \<Rightarrow> bracket \<times> py_error option" where
  "get_participants int_of_str net b =
     (if TOURNAMENT_ID b = [] then (bprint TournamentIdNotSet b, None)
      else (case api_request net (''/tournaments/'' @ TOURNAMENT_ID b @ ''/participants.json'') b of
        (b1, result) \<Rightarrow>
          if \<not> truthy result then (b1, None)
          else (case py_contains result ''data'' of
                  Inl e \<Rightarrow> (b1, Some e)
                | Inr False \<Rightarrow> (b1, None)
                | Inr True \<Rightarrow>
                   (case py_getitem result ''data'' of Inl e \<Rightarrow> (b1, Some e) | Inr d \<Rightarrow>
                   (case py_iter d of Inl e \<Rightarrow> (b1, Some e) | Inr ps \<Rightarrow>
                   (case participants_dict int_of_str ps [] of Inl e \<Rightarrow> (b1, Some e) | Inr new \<Rightarrow>
                      (bprint (LoadedParticipants (length new)) (b1\<lparr>PARTICIPANTS := new\<rparr>),
                       None)))))))"

text \<open>
  \<^verbatim>\<open>points[i]["participant_id"] if len(points) > i else None\<close>.
\<close>

definition participant_id :: "json \<Rightarrow> nat \<Rightarrow> py_error + json" where
  "participant_id points i =
     (case py_len points of Inl e \<Rightarrow> Inl e | Inr n \<Rightarrow>
        if i < n then
          (case py_index points i of Inl e \<Rightarrow> Inl e | Inr x \<Rightarrow> py_getitem x ''participant_id'')
        else Inr JNull)"

text \<open>
  The loop of \<^verbatim>\<open>get_matches\<close>. In the assignment the right-hand side (the two
  look-ups) is evaluated before the key \<^verbatim>\<open>int(play_order)\<close>. An exception leaves
  the match dict as far as it was filled.
\<close>

fun load_matches ::
  "(string \<Rightarrow> int option) \<Rightarrow> json list \<Rightarrow> bracket \<Rightarrow> bracket \<times> py_error option" where
  "load_matches int_of_str [] b = (b, None)"
| "load_matches int_of_str (m # ms) b =
     (case py_getitem m ''attributes'' of Inl e \<Rightarrow> (b, Some e) | Inr attrs \<Rightarrow>
     (case py_get attrs ''suggested_play_order'' of Inl e \<Rightarrow> (b, Some e) | Inr play_order \<Rightarrow>
        if play_order = JNull then load_matches int_of_str ms b
        else
     (case py_get_default attrs ''points_by_participant'' (JArr []) of
        Inl e \<Rightarrow> (b, Some e) | Inr points \<Rightarrow>
     (case participant_id points 0 of Inl e \<Rightarrow> (b, Some e) | Inr p1_id \<Rightarrow>
     (case participant_id points 1 of Inl e \<Rightarrow> (b, Some e) | Inr p2_id \<Rightarrow>
     (case dict_get (PARTICIPANTS b) p1_id of Inl e \<Rightarrow> (b, Some e) | Inr t1 \<Rightarrow>
     (case dict_get (PARTICIPANTS b) p2_id of Inl e \<Rightarrow> (b, Some e) | Inr t2 \<Rightarrow>
     (case py_int int_of_str play_order of Inl e \<Rightarrow> (b, Some e) | Inr k \<Rightarrow>
        load_matches int_of_str ms
          (b\<lparr>MATCHES := AList.update k (t1, t2) (MATCHES b)\<rparr>)))))))))"

definition get_matches ::
  "(string \<Rightarrow> int option) \<Rightarrow> (string \<Rightarrow> http_outcome) \<Rightarrow> bracket \<Rightarrow> bracket \<times> py_error option" where
  "get_matches int_of_str net b =
     (if TOURNAMENT_ID b = [] then (bprint TournamentIdNotSet b, None)
      else (case api_request net (''/tournaments/'' @ TOURNAMENT_ID b @ ''/matches.json'') b of
        (b1, result) \<Rightarrow>
          if \<not> truthy result then (b1, None)
          else (case py_contains result ''data'' of
                  Inl e \<Rightarrow> (b1, Some e)
                | Inr False \<Rightarrow> (b1, None)
                | Inr True \<Rightarrow>
                   (let b2 = b1\<lparr>MATCHES := []\<rparr> in
                    case py_getitem result ''data'' of Inl e \<Rightarrow> (b2, Some e) | Inr d \<Rightarrow>
                   (case py_iter d of Inl e \<Rightarrow> (b2, Some e) | Inr ms \<Rightarrow>
                   (case load_matches int_of_str ms b2 of
                      (b3, Some e) \<Rightarrow> (b3, Some e)
                    | (b3, None) \<Rightarrow>
                        (bprint (LoadedMatches (length (MATCHES b3))) b3, None)))))))"

text \<open>
  \<^verbatim>\<open>get_bracket_text_sources\<close>: two assignments to the result dict for every item
  of the match dict, in its order.
\<close>

fun bracket_text_sources ::
  "(int \<times> json \<times> json) list \<Rightarrow> (string \<times> json) list \<Rightarrow> (string \<times> json) list" where
  "bracket_text_sources [] sources = sources"
| "bracket_text_sources ((game_num, t1_name, t2_name) # rest) sources =
     bracket_text_sources rest
       (AList.update (''G'' @ show_int game_num @ ''_T2'') t2_name
          (AList.update (''G'' @ show_int game_num @ ''_T1'') t1_name sources))"

definition get_bracket_text_sources :: "bracket \<Rightarrow> (string \<times> json) list" where
  "get_bracket_text_sources b = bracket_text_sources (MATCHES b) []"

text \<open>
  The record shape of the matches endpoint: an object whose \<^verbatim>\<open>"attributes"\<close> is an
  object; \<^verbatim>\<open>"suggested_play_order"\<close> is missing, \<^verbatim>\<open>null\<close> or an integer; and, when
  there is a play order, \<^verbatim>\<open>"points_by_participant"\<close> is missing or a list whose first
  two members are objects with an integer or \<^verbatim>\<open>null\<close> \<^verbatim>\<open>"participant_id"\<close>.
\<close>

definition record_attrs :: "json \<Rightarrow> (string \<times> json) list option" where
  "record_attrs m =
     (case m of
        JObj kvs \<Rightarrow> (case map_of kvs ''attributes'' of Some (JObj attrs) \<Rightarrow> Some attrs | _ \<Rightarrow> None)
      | _ \<Rightarrow> None)"

definition play_order_of :: "(string \<times> json) list \<Rightarrow> int option" where
  "play_order_of attrs =
     (case map_of attrs ''suggested_play_order'' of Some (JNum n) \<Rightarrow> Some n | _ \<Rightarrow> None)"

definition point_record :: "json \<Rightarrow> bool" where
  "point_record p =
     (case p of
        JObj kvs \<Rightarrow>
          (case map_of kvs ''participant_id'' of
             Some (JNum i) \<Rightarrow> True | Some JNull \<Rightarrow> True | _ \<Rightarrow> False)
      | _ \<Rightarrow> False)"

definition match_record :: "json \<Rightarrow> bool" where
  "match_record m =
     (case record_attrs m of
        None \<Rightarrow> False
      | Some attrs \<Rightarrow>
          (case map_of attrs ''suggested_play_order'' of
             None \<Rightarrow> True
           | Some JNull \<Rightarrow> True
           | Some (JNum n) \<Rightarrow>
               (case map_of attrs ''points_by_participant'' of
                  None \<Rightarrow> True
                | Some (JArr pts) \<Rightarrow> list_all point_record (take 2 pts)
                | Some _ \<Rightarrow> False)
           | Some _ \<Rightarrow> False))"

text \<open>
  Side \<open>i\<close> of a record as the specification words it: the name the participant dict
  gives for the id of element \<open>i\<close> of \<^verbatim>\<open>points_by_participant\<close>, absent (\<open>JNull\<close>) when
  the list is too short or the id is unknown.
\<close>

definition side_name :: "(int \<times> json) list \<Rightarrow> (string \<times> json) list \<Rightarrow> nat \<Rightarrow> json" where
  "side_name ps attrs i =
     (case map_of attrs ''points_by_participant'' of
        Some (JArr pts) \<Rightarrow>
          if i < length pts then
            (case pts ! i of
               JObj kvs \<Rightarrow>
                 (case map_of kvs ''participant_id'' of
                    Some (JNum pid) \<Rightarrow> (case map_of ps pid of Some nm \<Rightarrow> nm | None \<Rightarrow> JNull)
                  | _ \<Rightarrow> JNull)
             | _ \<Rightarrow> JNull)
          else JNull
      | _ \<Rightarrow> JNull)"

definition match_entry :: "(int \<times> json) list \<Rightarrow> json \<Rightarrow> (int \<times> json \<times> json) option" where
  "match_entry ps m =
     (case record_attrs m of
        None \<Rightarrow> None
      | Some attrs \<Rightarrow>
          (case play_order_of attrs of
             None \<Rightarrow> None
           | Some n \<Rightarrow> Some (n, side_name ps attrs 0, side_name ps attrs 1)))"

text \<open>A fetch failed when the request did not yield a decoded document.\<close>

definition fetch_failed :: "http_outcome \<Rightarrow> bool" where
  "fetch_failed r = (case r of Response j \<Rightarrow> False | _ \<Rightarrow> True)"

definition participants_url :: "bracket \<Rightarrow> string" where
  "participants_url b =
     ''https://api.challonge.com/v2.1'' @ ''/tournaments/'' @ TOURNAMENT_ID b @ ''/participants.json''"

definition matches_url :: "bracket \<Rightarrow> string" where
  "matches_url b =
     ''https://api.challonge.com/v2.1'' @ ''/tournaments/'' @ TOURNAMENT_ID b @ ''/matches.json''"

section \<open>Properties\<close>

text \<open>
  C7: for the empty channel the URL builder returns the empty string, and for every
  other channel exactly the fixed prefix, the channel and the fixed suffix.
\<close>

theorem build_twitch_url_exact:
  "build_twitch_url c =
     (if c = [] then []
      else ''https://player.twitch.tv/?channel='' @ c @
           ''&enableExtensions=true&muted=false&parent=twitch.tv&player=popout&quality=480p30&volume=0.69'')"
  by (simp add: build_twitch_url_def)

theorem build_twitch_url_exact_witness:
  "build_twitch_url ''abc'' =
     ''https://player.twitch.tv/?channel=abc&enableExtensions=true&muted=false&parent=twitch.tv&player=popout&quality=480p30&volume=0.69''
   \<and> build_twitch_url '''' = ''''"
  using build_twitch_url_exact [of "''abc''"] build_twitch_url_exact [of "''''"]
  by simp

subsection \<open>The roster loader\<close>

text \<open>
  C4, amended: when the roster file is missing, or is text that is not well-formed
  JSON, \<open>load_roster\<close> prints the diagnostic, leaves the roster as it was (so empty if
  nothing was loaded before) and raises nothing.
\<close>

theorem load_roster_soft_failure:
  assumes "f = FileNotFoundError \<or> f = JSONDecodeError"
  shows "snd (load_roster f w) = None
       \<and> TEAM_ROSTER (fst (load_roster f w)) = TEAM_ROSTER w
       \<and> obs_sources (fst (load_roster f w)) = obs_sources w
       \<and> stdout (fst (load_roster f w)) =
           stdout w @ [if f = FileNotFoundError then RosterNotFound else RosterInvalidJSON]"
  using assms by (auto simp: load_roster_def print_def)

theorem load_roster_soft_failure_witness:
  "TEAM_ROSTER (fst (load_roster JSONDecodeError
       \<lparr>TEAM_ROSTER = [(''Alpha'', \<lparr>name = ''Alpha'', helm = Some [JStr ''X'', JStr ''x1''],
                                   flex = None, mc = None, bilge = None\<rparr>)],
        obs_sources = [], stdout = []\<rparr>)) =
     [(''Alpha'', \<lparr>name = ''Alpha'', helm = Some [JStr ''X'', JStr ''x1''],
                  flex = None, mc = None, bilge = None\<rparr>)]
   \<and> snd (load_roster JSONDecodeError
       \<lparr>TEAM_ROSTER = [(''Alpha'', \<lparr>name = ''Alpha'', helm = Some [JStr ''X'', JStr ''x1''],
                                   flex = None, mc = None, bilge = None\<rparr>)],
        obs_sources = [], stdout = []\<rparr>) = None
   \<and> TEAM_ROSTER (fst (load_roster FileNotFoundError
       \<lparr>TEAM_ROSTER = [], obs_sources = [], stdout = []\<rparr>)) = []"
  using load_roster_soft_failure [of JSONDecodeError
      "\<lparr>TEAM_ROSTER = [(''Alpha'', \<lparr>name = ''Alpha'', helm = Some [JStr ''X'', JStr ''x1''],
                                   flex = None, mc = None, bilge = None\<rparr>)],
        obs_sources = [], stdout = []\<rparr>"]
    load_roster_soft_failure [of FileNotFoundError
      "\<lparr>TEAM_ROSTER = [], obs_sources = [], stdout = []\<rparr>"]
  by simp

text \<open>
  Other invalid content is not handled so: a document that decodes but has no
  \<^verbatim>\<open>"teams"\<close> key raises KeyError after the roster has been cleared, and a file that
  is not UTF-8 text raises the decoding error of the read (a ValueError), which
  \<open>load_roster\<close> does not catch.
\<close>

theorem load_roster_invalid_content_counterexample:
  "load_roster (Loaded (JObj []))
       \<lparr>TEAM_ROSTER = [(''Alpha'', \<lparr>name = ''Alpha'', helm = Some [JStr ''X'', JStr ''x1''],
                                   flex = None, mc = None, bilge = None\<rparr>)],
        obs_sources = [], stdout = []\<rparr> =
     (\<lparr>TEAM_ROSTER = [], obs_sources = [], stdout = []\<rparr>, Some KeyError)
   \<and> load_roster (OtherReadError ValueError)
       \<lparr>TEAM_ROSTER = [(''Alpha'', \<lparr>name = ''Alpha'', helm = Some [JStr ''X'', JStr ''x1''],
                                   flex = None, mc = None, bilge = None\<rparr>)],
        obs_sources = [], stdout = []\<rparr> =
     (\<lparr>TEAM_ROSTER = [(''Alpha'', \<lparr>name = ''Alpha'', helm = Some [JStr ''X'', JStr ''x1''],
                                   flex = None, mc = None, bilge = None\<rparr>)],
        obs_sources = [], stdout = []\<rparr>, Some ValueError)"
  by (simp add: load_roster_def)

lemma slot_tup_result:
  assumes "slot_tup (JObj kvs) k = Inr x"
  shows "x = (if slot_unnamed kvs k then None else Some (slot_values kvs k))"
  using assms
  by (auto simp: slot_tup_def py_get_def slot_unnamed_def slot_values_def
        split: option.splits json.splits if_splits sum.splits)

lemma make_team_result:
  assumes "make_team tn (JObj kvs) = Inr t"
  shows "t = \<lparr>name = tn,
              helm = (if slot_unnamed kvs ''helm'' then None else Some (slot_values kvs ''helm'')),
              flex = (if slot_unnamed kvs ''flex'' then None else Some (slot_values kvs ''flex'')),
              mc = (if slot_unnamed kvs ''mc'' then None else Some (slot_values kvs ''mc'')),
              bilge = (if slot_unnamed kvs ''bilge'' then None else Some (slot_values kvs ''bilge''))\<rparr>"
proof -
  from assms obtain h m f b where
    h: "slot_tup (JObj kvs) ''helm'' = Inr h" and m: "slot_tup (JObj kvs) ''mc'' = Inr m" and
    f: "slot_tup (JObj kvs) ''flex'' = Inr f" and b: "slot_tup (JObj kvs) ''bilge'' = Inr b" and
    t: "t = \<lparr>name = tn, helm = h, flex = f, mc = m, bilge = b\<rparr>"
    by (auto simp: make_team_def split: sum.splits)
  show ?thesis
    unfolding t
    using slot_tup_result [OF h] slot_tup_result [OF m] slot_tup_result [OF f]
      slot_tup_result [OF b]
    by simp
qed

lemma load_teams_other:
  assumes "load_teams kvs w = (w', None)" and "tn \<notin> fst ` set kvs"
  shows "map_of (TEAM_ROSTER w') tn = map_of (TEAM_ROSTER w) tn"
  using assms
proof (induction kvs arbitrary: w)
  case Nil
  then show ?case by simp
next
  case (Cons kv kvs)
  obtain k v where kv: "kv = (k, v)" by (cases kv)
  from Cons.prems obtain t where t: "make_team k v = Inr t"
    and rest: "load_teams kvs (w\<lparr>TEAM_ROSTER := AList.update k t (TEAM_ROSTER w)\<rparr>) = (w', None)"
    by (auto simp: kv split: sum.splits)
  from Cons.prems have "tn \<noteq> k" "tn \<notin> fst ` set kvs" by (auto simp: kv)
  with Cons.IH [OF rest] show ?case by (simp add: update_conv')
qed

lemma load_teams_stored:
  assumes "load_teams kvs w = (w', None)" and "distinct (map fst kvs)" and "(tn, td) \<in> set kvs"
  shows "\<exists>t. make_team tn td = Inr t \<and> map_of (TEAM_ROSTER w') tn = Some t"
  using assms
proof (induction kvs arbitrary: w)
  case Nil
  then show ?case by simp
next
  case (Cons kv kvs)
  obtain k v where kv: "kv = (k, v)" by (cases kv)
  from Cons.prems obtain t where t: "make_team k v = Inr t"
    and rest: "load_teams kvs (w\<lparr>TEAM_ROSTER := AList.update k t (TEAM_ROSTER w)\<rparr>) = (w', None)"
    by (auto simp: kv split: sum.splits)
  show ?case
  proof (cases "(tn, td) \<in> set kvs")
    case True
    with Cons.IH [OF rest] Cons.prems show ?thesis by simp
  next
    case False
    with Cons.prems have eq: "tn = k" "td = v" and notin: "tn \<notin> fst ` set kvs"
      by (auto simp: kv)
    from load_teams_other [OF rest notin] t show ?thesis
      by (simp add: eq update_conv')
  qed
qed

text \<open>
  C5: in a roster file that loaded without an exception, the Team stored for a team
  record has, for each of helm, flex, mc and bilge, no position when the slot's record
  is missing or its \<^verbatim>\<open>"name"\<close> is missing or empty, whatever else the record holds, and
  otherwise the tuple of the record's values.
\<close>

theorem load_roster_positions:
  assumes "py_getitem data ''teams'' = Inr (JObj teams)"
    and "distinct (map fst teams)"
    and "(tn, JObj kvs) \<in> set teams"
    and "snd (load_roster (Loaded data) w) = None"
  shows "get_team (fst (load_roster (Loaded data) w)) tn =
           Some \<lparr>name = tn,
                 helm = (if slot_unnamed kvs ''helm'' then None else Some (slot_values kvs ''helm'')),
                 flex = (if slot_unnamed kvs ''flex'' then None else Some (slot_values kvs ''flex'')),
                 mc = (if slot_unnamed kvs ''mc'' then None else Some (slot_values kvs ''mc'')),
                 bilge = (if slot_unnamed kvs ''bilge'' then None else Some (slot_values kvs ''bilge''))\<rparr>"
proof -
  from assms(1,4) obtain w2 where
    lt: "load_teams teams (w\<lparr>TEAM_ROSTER := []\<rparr>) = (w2, None)" and
    res: "fst (load_roster (Loaded data) w) = print (RosterLoaded (length (TEAM_ROSTER w2))) w2"
    by (auto simp: load_roster_def Let_def split: prod.splits option.splits)
  from load_teams_stored [OF lt assms(2,3)] obtain t where
    t: "make_team tn (JObj kvs) = Inr t" and st: "map_of (TEAM_ROSTER w2) tn = Some t"
    by blast
  show ?thesis
    using make_team_result [OF t] st by (simp add: res get_team_def print_def)
qed

theorem load_roster_positions_witness:
  "get_team (fst (load_roster (Loaded (JObj [(''teams'', JObj [(''Alpha'',
       JObj [(''helm'', JObj [(''name'', JStr []), (''channel'', JStr ''x1'')]),
             (''mc'', JObj [(''name'', JStr ''X''), (''channel'', JStr ''x2'')]),
             (''bilge'', JObj [(''channel'', JStr ''x3'')])])])]))
       \<lparr>TEAM_ROSTER = [], obs_sources = [], stdout = []\<rparr>)) ''Alpha'' =
     Some \<lparr>name = ''Alpha'', helm = None, flex = None,
           mc = Some [JStr ''X'', JStr ''x2''], bilge = None\<rparr>"
  using load_roster_positions [of
      "JObj [(''teams'', JObj [(''Alpha'',
       JObj [(''helm'', JObj [(''name'', JStr []), (''channel'', JStr ''x1'')]),
             (''mc'', JObj [(''name'', JStr ''X''), (''channel'', JStr ''x2'')]),
             (''bilge'', JObj [(''channel'', JStr ''x3'')])])])]"
      "[(''Alpha'',
       JObj [(''helm'', JObj [(''name'', JStr []), (''channel'', JStr ''x1'')]),
             (''mc'', JObj [(''name'', JStr ''X''), (''channel'', JStr ''x2'')]),
             (''bilge'', JObj [(''channel'', JStr ''x3'')])])]"
      "''Alpha''"
      "[(''helm'', JObj [(''name'', JStr []), (''channel'', JStr ''x1'')]),
        (''mc'', JObj [(''name'', JStr ''X''), (''channel'', JStr ''x2'')]),
        (''bilge'', JObj [(''channel'', JStr ''x3'')])]"
      "\<lparr>TEAM_ROSTER = [], obs_sources = [], stdout = []\<rparr>"]
  by (simp add: load_roster_def make_team_def slot_tup_def py_get_def print_def
        slot_unnamed_def slot_values_def)

subsection \<open>The bracket client\<close>

lemma api_request_failed:
  assumes "API_KEY b = [] \<or> fetch_failed (net (''https://api.challonge.com/v2.1'' @ endpoint))"
  shows "snd (api_request net endpoint b) = JNull
       \<and> (\<exists>ms. ms \<noteq> [] \<and> fst (api_request net endpoint b) = b\<lparr>printed := printed b @ ms\<rparr>)"
  using assms
  by (auto simp: api_request_def fetch_failed_def bprint_def split: http_outcome.splits option.splits)

text \<open>
  C2: when the request fails (an HTTP error, a URL error, a body that does not decode,
  or any other exception inside \<open>api_request\<close>), \<open>get_participants\<close> and
  \<open>get_matches\<close> print the error and raise nothing, and the module state is what it
  was but for the printed lines: the participant dict and the match dict keep every
  key and value.
\<close>

theorem fetch_failure_keeps_mappings:
  shows "(fetch_failed (net (participants_url b)) \<longrightarrow>
            snd (get_participants int_of_str net b) = None
          \<and> (\<exists>ms. ms \<noteq> [] \<and> fst (get_participants int_of_str net b) = b\<lparr>printed := printed b @ ms\<rparr>))
       \<and> (fetch_failed (net (matches_url b)) \<longrightarrow>
            snd (get_matches int_of_str net b) = None
          \<and> (\<exists>ms. ms \<noteq> [] \<and> fst (get_matches int_of_str net b) = b\<lparr>printed := printed b @ ms\<rparr>))"
proof (intro conjI impI)
  assume f: "fetch_failed (net (participants_url b))"
  show "snd (get_participants int_of_str net b) = None"
    using api_request_failed [of b net "''/tournaments/'' @ TOURNAMENT_ID b @ ''/participants.json''"] f
    by (auto simp: get_participants_def participants_url_def split: prod.splits)
  show "\<exists>ms. ms \<noteq> [] \<and> fst (get_participants int_of_str net b) = b\<lparr>printed := printed b @ ms\<rparr>"
    using api_request_failed [of b net "''/tournaments/'' @ TOURNAMENT_ID b @ ''/participants.json''"] f
    by (auto simp: get_participants_def participants_url_def bprint_def split: prod.splits)
next
  assume f: "fetch_failed (net (matches_url b))"
  show "snd (get_matches int_of_str net b) = None"
    using api_request_failed [of b net "''/tournaments/'' @ TOURNAMENT_ID b @ ''/matches.json''"] f
    by (auto simp: get_matches_def matches_url_def split: prod.splits)
  show "\<exists>ms. ms \<noteq> [] \<and> fst (get_matches int_of_str net b) = b\<lparr>printed := printed b @ ms\<rparr>"
    using api_request_failed [of b net "''/tournaments/'' @ TOURNAMENT_ID b @ ''/matches.json''"] f
    by (auto simp: get_matches_def matches_url_def bprint_def split: prod.splits)
qed

theorem fetch_failure_keeps_mappings_witness:
  "fetch_failed URLError
   \<and> get_matches int_of_none (\<lambda>u. URLError)
       \<lparr>API_KEY = ''k'', TOURNAMENT_ID = ''t'', PARTICIPANTS = [(1, JStr ''Alpha'')],
        MATCHES = [(1, JStr ''Alpha'', JNull)], printed = []\<rparr> =
     (\<lparr>API_KEY = ''k'', TOURNAMENT_ID = ''t'', PARTICIPANTS = [(1, JStr ''Alpha'')],
       MATCHES = [(1, JStr ''Alpha'', JNull)], printed = [UrlErrorLog]\<rparr>, None)
   \<and> get_participants int_of_none (\<lambda>u. HTTPError None)
       \<lparr>API_KEY = ''k'', TOURNAMENT_ID = ''t'', PARTICIPANTS = [(1, JStr ''Alpha'')],
        MATCHES = [(1, JStr ''Alpha'', JNull)], printed = []\<rparr> =
     (\<lparr>API_KEY = ''k'', TOURNAMENT_ID = ''t'', PARTICIPANTS = [(1, JStr ''Alpha'')],
       MATCHES = [(1, JStr ''Alpha'', JNull)], printed = [HttpErrorLog]\<rparr>, None)"
  using fetch_failure_keeps_mappings [of "\<lambda>u. URLError"
      "\<lparr>API_KEY = ''k'', TOURNAMENT_ID = ''t'', PARTICIPANTS = [(1, JStr ''Alpha'')],
        MATCHES = [(1, JStr ''Alpha'', JNull)], printed = []\<rparr>" int_of_none]
    fetch_failure_keeps_mappings [of "\<lambda>u. HTTPError None"
      "\<lparr>API_KEY = ''k'', TOURNAMENT_ID = ''t'', PARTICIPANTS = [(1, JStr ''Alpha'')],
        MATCHES = [(1, JStr ''Alpha'', JNull)], printed = []\<rparr>" int_of_none]
  by (simp add: fetch_failed_def get_matches_def get_participants_def api_request_def bprint_def)

text \<open>
  A document that decodes but whose records have another shape is not a failed fetch:
  \<open>get_matches\<close> has emptied the match dict when the exception of the loop is raised.
\<close>

lemma get_matches_record_without_attributes:
  assumes "API_KEY b \<noteq> []" and "TOURNAMENT_ID b \<noteq> []"
    and "net (matches_url b) = Response (JObj [(''data'', JArr [JObj []])])"
  shows "get_matches int_of_str net b = (b\<lparr>MATCHES := []\<rparr>, Some KeyError)"
proof -
  have "api_request net (''/tournaments/'' @ TOURNAMENT_ID b @ ''/matches.json'') b =
      (b, JObj [(''data'', JArr [JObj []])])"
    using assms(1,3) by (simp add: api_request_def matches_url_def)
  then show ?thesis
    unfolding get_matches_def using assms(2) by simp
qed

lemma api_request_fields:
  "PARTICIPANTS (fst (api_request net e b)) = PARTICIPANTS b"
  "MATCHES (fst (api_request net e b)) = MATCHES b"
  by (auto simp: api_request_def bprint_def split: http_outcome.splits option.splits)

text \<open>
  C10: \<open>get_participants\<close> assigns the participant dict once, after the new dict
  has been built in full. So whenever it raises (a record without \<^verbatim>\<open>"id"\<close> or
  \<^verbatim>\<open>"attributes"\<close>, say) the participant dict is the previous one, and so it is
  when the decoded response is an object without a \<^verbatim>\<open>"data"\<close> key, where nothing
  is raised either.
\<close>

theorem get_participants_atomic:
  shows "(snd (get_participants int_of_str net b) \<noteq> None \<longrightarrow>
            PARTICIPANTS (fst (get_participants int_of_str net b)) = PARTICIPANTS b)
       \<and> (net (participants_url b) = Response (JObj kvs) \<and> ''data'' \<notin> fst ` set kvs \<longrightarrow>
            snd (get_participants int_of_str net b) = None
          \<and> PARTICIPANTS (fst (get_participants int_of_str net b)) = PARTICIPANTS b)"
proof (intro conjI impI)
  assume "snd (get_participants int_of_str net b) \<noteq> None"
  then show "PARTICIPANTS (fst (get_participants int_of_str net b)) = PARTICIPANTS b"
    using api_request_fields(1) [of net "''/tournaments/'' @ TOURNAMENT_ID b @ ''/participants.json''" b]
    by (auto simp: get_participants_def bprint_def split: prod.splits if_splits sum.splits bool.splits)
next
  assume a: "net (participants_url b) = Response (JObj kvs) \<and> ''data'' \<notin> fst ` set kvs"
  show "snd (get_participants int_of_str net b) = None"
    using a by (auto simp: get_participants_def participants_url_def api_request_def bprint_def
        split: prod.splits if_splits sum.splits bool.splits)
  show "PARTICIPANTS (fst (get_participants int_of_str net b)) = PARTICIPANTS b"
    using a by (auto simp: get_participants_def participants_url_def api_request_def bprint_def
        split: prod.splits if_splits sum.splits bool.splits)
qed

theorem get_participants_atomic_witness:
  "get_participants int_of_none
       (\<lambda>u. Response (JObj [(''data'', JArr [
          JObj [(''id'', JNum 7), (''attributes'', JObj [(''name'', JStr ''Gamma'')])],
          JObj [(''attributes'', JObj [(''name'', JStr ''Delta'')])]])]))
       \<lparr>API_KEY = ''k'', TOURNAMENT_ID = ''t'', PARTICIPANTS = [(1, JStr ''Alpha'')],
        MATCHES = [], printed = []\<rparr> =
     (\<lparr>API_KEY = ''k'', TOURNAMENT_ID = ''t'', PARTICIPANTS = [(1, JStr ''Alpha'')],
       MATCHES = [], printed = []\<rparr>, Some KeyError)
   \<and> get_participants int_of_none (\<lambda>u. Response (JObj [(''errors'', JArr [])]))
       \<lparr>API_KEY = ''k'', TOURNAMENT_ID = ''t'', PARTICIPANTS = [(1, JStr ''Alpha'')],
        MATCHES = [], printed = []\<rparr> =
     (\<lparr>API_KEY = ''k'', TOURNAMENT_ID = ''t'', PARTICIPANTS = [(1, JStr ''Alpha'')],
       MATCHES = [], printed = []\<rparr>, None)"
  using get_participants_atomic [of int_of_none
      "\<lambda>u. Response (JObj [(''data'', JArr [
          JObj [(''id'', JNum 7), (''attributes'', JObj [(''name'', JStr ''Gamma'')])],
          JObj [(''attributes'', JObj [(''name'', JStr ''Delta'')])]])])"
      "\<lparr>API_KEY = ''k'', TOURNAMENT_ID = ''t'', PARTICIPANTS = [(1, JStr ''Alpha'')],
        MATCHES = [], printed = []\<rparr>"]
    get_participants_atomic [of int_of_none "\<lambda>u. Response (JObj [(''errors'', JArr [])])"
      "\<lparr>API_KEY = ''k'', TOURNAMENT_ID = ''t'', PARTICIPANTS = [(1, JStr ''Alpha'')],
        MATCHES = [], printed = []\<rparr>" "[(''errors'', JArr [])]"]
  by (simp add: get_participants_def api_request_def bprint_def)

lemma participant_id_side:
  assumes "map_of attrs ''points_by_participant'' = Some (JArr pts)"
    and "i < 2" and "list_all point_record (take 2 pts)"
  shows "\<exists>x. participant_id (JArr pts) i = Inr x \<and> dict_get ps x = Inr (side_name ps attrs i)"
proof (cases "i < length pts")
  case True
  with assms(2,3) have "point_record (pts ! i)"
    by (metis length_take list_all_length min_less_iff_conj nth_take)
  with True assms(1) show ?thesis
    by (auto simp: participant_id_def point_record_def side_name_def
        split: json.splits option.splits)
next
  case False
  with assms(1) show ?thesis
    by (simp add: participant_id_def side_name_def)
qed

lemma participant_id_none:
  assumes "map_of attrs ''points_by_participant'' = None"
  shows "participant_id (JArr []) i = Inr JNull \<and> dict_get ps JNull = Inr (side_name ps attrs i)"
  using assms by (simp add: participant_id_def side_name_def)

lemma load_matches_step:
  assumes "match_record m"
  shows "load_matches int_of_str (m # ms) b =
           load_matches int_of_str ms
             (case match_entry (PARTICIPANTS b) m of
                None \<Rightarrow> b
              | Some e \<Rightarrow> b\<lparr>MATCHES := AList.update (fst e) (snd e) (MATCHES b)\<rparr>)"
proof -
  from assms obtain kvs attrs where m: "m = JObj kvs"
    and a: "map_of kvs ''attributes'' = Some (JObj attrs)"
    by (auto simp: match_record_def record_attrs_def split: json.splits option.splits)
  have ra: "record_attrs m = Some attrs" by (simp add: m a record_attrs_def)
  have ga: "py_getitem m ''attributes'' = Inr (JObj attrs)" by (simp add: m a)
  show ?thesis
  proof (cases "play_order_of attrs")
    case None
    with assms ra have "py_get (JObj attrs) ''suggested_play_order'' = Inr JNull"
      by (auto simp: match_record_def play_order_of_def py_get_def split: option.splits json.splits)
    with None ra ga show ?thesis by (simp add: match_entry_def)
  next
    case (Some n)
    then have po: "map_of attrs ''suggested_play_order'' = Some (JNum n)"
      by (auto simp: play_order_of_def split: option.splits json.splits)
    then have gp: "py_get (JObj attrs) ''suggested_play_order'' = Inr (JNum n)"
      by (simp add: py_get_def)
    have "\<exists>points. py_get_default (JObj attrs) ''points_by_participant'' (JArr []) = Inr points
        \<and> (\<forall>i<2. \<exists>x. participant_id points i = Inr x
              \<and> dict_get (PARTICIPANTS b) x = Inr (side_name (PARTICIPANTS b) attrs i))"
    proof (cases "map_of attrs ''points_by_participant''")
      case None
      then show ?thesis using participant_id_none [OF None] by simp
    next
      case (Some p)
      with assms ra po obtain pts where p: "p = JArr pts"
        and ok: "list_all point_record (take 2 pts)"
        by (auto simp: match_record_def split: json.splits)
      from Some p have mp: "map_of attrs ''points_by_participant'' = Some (JArr pts)" by simp
      show ?thesis using participant_id_side [OF mp _ ok] mp by simp
    qed
    then obtain points x1 x2 where
      pts: "py_get_default (JObj attrs) ''points_by_participant'' (JArr []) = Inr points" and
      x1: "participant_id points 0 = Inr x1"
          "dict_get (PARTICIPANTS b) x1 = Inr (side_name (PARTICIPANTS b) attrs 0)" and
      x2: "participant_id points (Suc 0) = Inr x2"
          "dict_get (PARTICIPANTS b) x2 = Inr (side_name (PARTICIPANTS b) attrs (Suc 0))"
      by (metis One_nat_def one_less_numeral_iff semiring_norm(76) zero_less_numeral)
    show ?thesis
      using Some ra ga gp
      by (simp add: match_entry_def pts x1 x2 del: py_get_default.simps)
  qed
qed

lemma load_matches_records:
  assumes "list_all match_record ms"
  shows "load_matches int_of_str ms b =
           (b\<lparr>MATCHES := foldl (\<lambda>acc e. AList.update (fst e) (snd e) acc) (MATCHES b)
                            (List.map_filter (match_entry (PARTICIPANTS b)) ms)\<rparr>, None)"
  using assms
proof (induction ms arbitrary: b)
  case Nil
  then show ?case by simp
next
  case (Cons m ms)
  then have m: "match_record m" and ms: "list_all match_record ms" by simp_all
  show ?case
    unfolding load_matches_step [OF m] Cons.IH [OF ms]
    by (cases "match_entry (PARTICIPANTS b) m") simp_all
qed

lemma map_of_foldl_update:
  "map_of (foldl (\<lambda>acc e. AList.update (fst e) (snd e) acc) acc es) = map_of acc ++ map_of (rev es)"
  by (induction es arbitrary: acc)
     (auto simp: update_conv' map_add_def fun_eq_iff split: option.splits)

lemma distinct_foldl_update:
  "distinct (map fst acc) \<Longrightarrow>
   distinct (map fst (foldl (\<lambda>acc e. AList.update (fst e) (snd e) acc) acc es))"
  by (induction es arbitrary: acc) (auto simp: distinct_update)

lemma length_update_le: "length (AList.update k v al) \<le> Suc (length al)"
  using arg_cong [OF update_keys [of k v al], of length] by (simp split: if_splits)

lemma length_foldl_update:
  "length (foldl (\<lambda>acc e. AList.update (fst e) (snd e) acc) acc es) \<le> length acc + length es"
proof (induction es arbitrary: acc)
  case Nil
  then show ?case by simp
next
  case (Cons e es)
  from Cons [of "AList.update (fst e) (snd e) acc"] length_update_le [of "fst e" "snd e" acc]
  show ?case by simp
qed

lemma length_map_filter_le: "length (List.map_filter f xs) \<le> length xs"
  by (induction xs) (auto split: option.splits)


lemma set_map_filter: "set (List.map_filter f xs) = {y. \<exists>x\<in>set xs. f x = Some y}"
  by (induction xs) (auto split: option.splits)

text \<open>
  C3: for a response whose \<^verbatim>\<open>"data"\<close> is a list of match records, \<open>get_matches\<close>
  raises nothing and leaves a match dict whose keys are exactly the play orders of the
  records that have one, so it has at most as many entries as there are records; the
  entry for a play order holds, for the last record with that play order, the names
  the participant dict gives for the ids of elements 0 and 1 of
  \<^verbatim>\<open>points_by_participant\<close>, each absent when the list is too short or the id is
  unknown.
\<close>

theorem get_matches_mapping:
  assumes "API_KEY b \<noteq> []" and "TOURNAMENT_ID b \<noteq> []"
    and "net (matches_url b) = Response (JObj kvs)"
    and "map_of kvs ''data'' = Some (JArr ms)"
    and "list_all match_record ms"
  shows "snd (get_matches int_of_str net b) = None
       \<and> PARTICIPANTS (fst (get_matches int_of_str net b)) = PARTICIPANTS b
       \<and> map_of (MATCHES (fst (get_matches int_of_str net b))) =
           map_of (rev (List.map_filter (match_entry (PARTICIPANTS b)) ms))
       \<and> fst ` set (MATCHES (fst (get_matches int_of_str net b))) =
           {n. \<exists>m\<in>set ms. \<exists>attrs. record_attrs m = Some attrs \<and> play_order_of attrs = Some n}
       \<and> distinct (map fst (MATCHES (fst (get_matches int_of_str net b))))
       \<and> length (MATCHES (fst (get_matches int_of_str net b))) \<le> length ms"
proof -
  let ?es = "List.map_filter (match_entry (PARTICIPANTS b)) ms"
  let ?new = "foldl (\<lambda>acc e. AList.update (fst e) (snd e) acc) [] ?es"
  from assms(4) have kvs: "kvs \<noteq> []" "''data'' \<in> fst ` set kvs"
    using map_of_SomeD [OF assms(4)] by force+
  have req: "api_request net (''/tournaments/'' @ TOURNAMENT_ID b @ ''/matches.json'') b = (b, JObj kvs)"
    using assms(1,3) by (simp add: api_request_def matches_url_def)
  have lm: "load_matches int_of_str ms (b\<lparr>MATCHES := []\<rparr>) = (b\<lparr>MATCHES := ?new\<rparr>, None)"
    using load_matches_records [OF assms(5), of int_of_str "b\<lparr>MATCHES := []\<rparr>"] by simp
  have res: "get_matches int_of_str net b = (bprint (LoadedMatches (length ?new)) (b\<lparr>MATCHES := ?new\<rparr>), None)"
    unfolding get_matches_def req using assms(2,4) kvs by (simp add: lm)
  have m: "MATCHES (fst (get_matches int_of_str net b)) = ?new"
    and p: "PARTICIPANTS (fst (get_matches int_of_str net b)) = PARTICIPANTS b"
    by (simp_all add: res bprint_def)
  have mp: "map_of ?new = map_of (rev ?es)"
    by (simp add: map_of_foldl_update)
  have "fst ` set ?new = dom (map_of ?new)" by (simp add: dom_map_of_conv_image_fst)
  also have "\<dots> = fst ` set ?es" by (simp add: mp dom_map_of_conv_image_fst)
  also have "\<dots> = {n. \<exists>m\<in>set ms. \<exists>attrs. record_attrs m = Some attrs \<and> play_order_of attrs = Some n}"
  proof (intro set_eqI iffI)
    fix n assume "n \<in> fst ` set ?es"
    then obtain a c m where "m \<in> set ms" "match_entry (PARTICIPANTS b) m = Some (n, a, c)"
      by (auto simp: set_map_filter)
    then show "n \<in> {n. \<exists>m\<in>set ms. \<exists>attrs. record_attrs m = Some attrs \<and> play_order_of attrs = Some n}"
      by (auto simp: match_entry_def split: option.splits)
  next
    fix n assume "n \<in> {n. \<exists>m\<in>set ms. \<exists>attrs. record_attrs m = Some attrs \<and> play_order_of attrs = Some n}"
    then obtain m attrs where m: "m \<in> set ms" "record_attrs m = Some attrs" "play_order_of attrs = Some n"
      by blast
    then have "match_entry (PARTICIPANTS b) m =
        Some (n, side_name (PARTICIPANTS b) attrs 0, side_name (PARTICIPANTS b) attrs 1)"
      by (simp add: match_entry_def)
    with m(1) have "(n, side_name (PARTICIPANTS b) attrs 0, side_name (PARTICIPANTS b) attrs 1) \<in> set ?es"
      unfolding set_map_filter by blast
    then show "n \<in> fst ` set ?es" by force
  qed
  finally have keys: "fst ` set ?new =
      {n. \<exists>m\<in>set ms. \<exists>attrs. record_attrs m = Some attrs \<and> play_order_of attrs = Some n}" .
  have d: "distinct (map fst ?new)" by (rule distinct_foldl_update) simp
  have "length ?new \<le> length ?es" using length_foldl_update [of "[]" ?es] by simp
  also have "\<dots> \<le> length ms" by (rule length_map_filter_le)
  finally have l: "length ?new \<le> length ms" .
  show ?thesis
    unfolding m p using res mp keys d l by simp
qed

theorem get_matches_mapping_witness:
  "get_matches int_of_none
       (\<lambda>u. Response (JObj [(''data'', JArr [
          JObj [(''attributes'', JObj [(''suggested_play_order'', JNum 1),
             (''points_by_participant'', JArr [JObj [(''participant_id'', JNum 1)],
                                               JObj [(''participant_id'', JNum 2)]])])],
          JObj [(''attributes'', JObj [(''suggested_play_order'', JNull),
             (''points_by_participant'', JArr [JObj [(''participant_id'', JNum 1)]])])],
          JObj [(''attributes'', JObj [(''suggested_play_order'', JNum 2),
             (''points_by_participant'', JArr [JObj [(''participant_id'', JNum 9)]])])]])]))
       \<lparr>API_KEY = ''k'', TOURNAMENT_ID = ''t'',
        PARTICIPANTS = [(1, JStr ''Alpha''), (2, JStr ''Beta'')],
        MATCHES = [(5, JNull, JNull)], printed = []\<rparr> =
     (\<lparr>API_KEY = ''k'', TOURNAMENT_ID = ''t'',
       PARTICIPANTS = [(1, JStr ''Alpha''), (2, JStr ''Beta'')],
       MATCHES = [(1, JStr ''Alpha'', JStr ''Beta''), (2, JNull, JNull)],
       printed = [LoadedMatches 2]\<rparr>, None)"
  using get_matches_mapping [of
      "\<lparr>API_KEY = ''k'', TOURNAMENT_ID = ''t'',
        PARTICIPANTS = [(1, JStr ''Alpha''), (2, JStr ''Beta'')],
        MATCHES = [(5, JNull, JNull)], printed = []\<rparr>"
      "\<lambda>u. Response (JObj [(''data'', JArr [
          JObj [(''attributes'', JObj [(''suggested_play_order'', JNum 1),
             (''points_by_participant'', JArr [JObj [(''participant_id'', JNum 1)],
                                               JObj [(''participant_id'', JNum 2)]])])],
          JObj [(''attributes'', JObj [(''suggested_play_order'', JNull),
             (''points_by_participant'', JArr [JObj [(''participant_id'', JNum 1)]])])],
          JObj [(''attributes'', JObj [(''suggested_play_order'', JNum 2),
             (''points_by_participant'', JArr [JObj [(''participant_id'', JNum 9)]])])]])])"
      "[(''data'', JArr [
          JObj [(''attributes'', JObj [(''suggested_play_order'', JNum 1),
             (''points_by_participant'', JArr [JObj [(''participant_id'', JNum 1)],
                                               JObj [(''participant_id'', JNum 2)]])])],
          JObj [(''attributes'', JObj [(''suggested_play_order'', JNull),
             (''points_by_participant'', JArr [JObj [(''participant_id'', JNum 1)]])])],
          JObj [(''attributes'', JObj [(''suggested_play_order'', JNum 2),
             (''points_by_participant'', JArr [JObj [(''participant_id'', JNum 9)]])])]])]"
      "[JObj [(''attributes'', JObj [(''suggested_play_order'', JNum 1),
             (''points_by_participant'', JArr [JObj [(''participant_id'', JNum 1)],
                                               JObj [(''participant_id'', JNum 2)]])])],
          JObj [(''attributes'', JObj [(''suggested_play_order'', JNull),
             (''points_by_participant'', JArr [JObj [(''participant_id'', JNum 1)]])])],
          JObj [(''attributes'', JObj [(''suggested_play_order'', JNum 2),
             (''points_by_participant'', JArr [JObj [(''participant_id'', JNum 9)]])])]]"
      int_of_none]
  by (simp add: get_matches_def api_request_def bprint_def py_get_def participant_id_def)

lemma digit_char_inj:
  assumes "d < 10" "e < 10" "digit_char d = digit_char e"
  shows "d = e"
proof -
  have "distinct ''0123456789''" by simp
  moreover have "d < length ''0123456789''" "e < length ''0123456789''" using assms by simp_all
  ultimately show ?thesis using assms(3) unfolding digit_char_def
    by (simp only: nth_eq_iff_index_eq)
qed

lemma digit_char_digit: "d < 10 \<Longrightarrow> digit_char d \<in> set ''0123456789''"
  unfolding digit_char_def by (rule nth_mem) simp

lemma show_nat_digits: "set (show_nat n) \<subseteq> set ''0123456789''"
proof (induction n rule: show_nat.induct)
  case (1 n)
  show ?case
  proof (cases "n < 10")
    case True
    then show ?thesis using digit_char_digit [of n] by (subst show_nat.simps) simp
  next
    case False
    have "n mod 10 < 10" by simp
    from digit_char_digit [OF this] 1 [OF False] False show ?thesis
      by (subst show_nat.simps) simp
  qed
qed

lemma show_nat_nonempty: "show_nat n \<noteq> []"
  by (subst show_nat.simps) simp

lemma show_nat_inj: "show_nat n = show_nat m \<Longrightarrow> n = m"
proof (induction n arbitrary: m rule: show_nat.induct)
  case (1 n)
  show ?case
  proof (cases "n < 10")
    case n: True
    show ?thesis
    proof (cases "m < 10")
      case True
      with n "1.prems" show ?thesis
        by (subst (asm) show_nat.simps, subst (asm) (2) show_nat.simps) (simp add: digit_char_inj)
    next
      case False
      have "show_nat m = show_nat (m div 10) @ [digit_char (m mod 10)]"
        using False by (subst show_nat.simps) simp
      moreover have "show_nat n = [digit_char n]" using n by (subst show_nat.simps) simp
      ultimately show ?thesis using "1.prems" show_nat_nonempty [of "m div 10"] by simp
    qed
  next
    case n: False
    have sn: "show_nat n = show_nat (n div 10) @ [digit_char (n mod 10)]"
      using n by (subst show_nat.simps) simp
    show ?thesis
    proof (cases "m < 10")
      case True
      then have "show_nat m = [digit_char m]" by (subst show_nat.simps) simp
      with sn "1.prems" show_nat_nonempty [of "n div 10"] show ?thesis by simp
    next
      case False
      then have "show_nat m = show_nat (m div 10) @ [digit_char (m mod 10)]"
        by (subst show_nat.simps) simp
      with sn "1.prems" have a: "show_nat (n div 10) = show_nat (m div 10)"
        and b: "digit_char (n mod 10) = digit_char (m mod 10)" by simp_all
      from "1.IH" [OF n a] have "n div 10 = m div 10" .
      moreover from b have "n mod 10 = m mod 10" by (intro digit_char_inj) simp_all
      ultimately show ?thesis by (metis div_mult_mod_eq)
    qed
  qed
qed

lemma show_int_inj: "show_int i = show_int j \<Longrightarrow> i = j"
proof -
  assume eq: "show_int i = show_int j"
  have neg: "CHR ''-'' \<notin> set (show_nat n)" for n
    using show_nat_digits [of n] by auto
  show ?thesis
  proof (cases "i < 0")
    case i: True
    show ?thesis
    proof (cases "j < 0")
      case True
      with i eq have "nat (- i) = nat (- j)" by (auto simp: show_int_def dest: show_nat_inj)
      with i True show ?thesis by simp
    next
      case False
      with i eq have "CHR ''-'' # show_nat (nat (- i)) = show_nat (nat j)" by (simp add: show_int_def)
      then have "CHR ''-'' \<in> set (show_nat (nat j))" by (metis list.set_intros(1))
      with neg show ?thesis by simp
    qed
  next
    case i: False
    show ?thesis
    proof (cases "j < 0")
      case True
      with i eq have "show_nat (nat i) = CHR ''-'' # show_nat (nat (- j))" by (simp add: show_int_def)
      then have "CHR ''-'' \<in> set (show_nat (nat i))" by (metis list.set_intros(1))
      with neg show ?thesis by simp
    next
      case False
      with i eq have "nat i = nat j" by (auto simp: show_int_def dest: show_nat_inj)
      with i False show ?thesis by simp
    qed
  qed
qed

lemma key_T1_inj: "''G'' @ show_int n @ ''_T1'' = ''G'' @ show_int m @ ''_T1'' \<longleftrightarrow> n = m"
  by (auto dest: show_int_inj)

lemma key_T2_inj: "''G'' @ show_int n @ ''_T2'' = ''G'' @ show_int m @ ''_T2'' \<longleftrightarrow> n = m"
  by (auto dest: show_int_inj)

lemma key_T1_T2: "''G'' @ show_int n @ ''_T1'' \<noteq> ''G'' @ show_int m @ ''_T2''"
proof
  assume "''G'' @ show_int n @ ''_T1'' = ''G'' @ show_int m @ ''_T2''"
  then have "last (''G'' @ show_int n @ ''_T1'') = last (''G'' @ show_int m @ ''_T2'')" by simp
  then show False by simp
qed

lemma bracket_text_sources_keys:
  "fst ` set (bracket_text_sources ms acc) =
     fst ` set acc \<union> (\<Union>n\<in>fst ` set ms. {''G'' @ show_int n @ ''_T1'', ''G'' @ show_int n @ ''_T2''})"
proof (induction ms arbitrary: acc)
  case Nil
  then show ?case by simp
next
  case (Cons e ms)
  obtain n a c where e: "e = (n, a, c)" by (cases e)
  show ?case unfolding e bracket_text_sources.simps Cons.IH
    by (simp only: dom_update) auto
qed

lemma bracket_text_sources_other:
  assumes "\<forall>n\<in>fst ` set ms. k \<noteq> ''G'' @ show_int n @ ''_T1'' \<and> k \<noteq> ''G'' @ show_int n @ ''_T2''"
  shows "map_of (bracket_text_sources ms acc) k = map_of acc k"
  using assms
proof (induction ms arbitrary: acc)
  case Nil
  then show ?case by simp
next
  case (Cons e ms)
  obtain n a c where e: "e = (n, a, c)" by (cases e)
  from Cons.prems have k: "k \<noteq> ''G'' @ show_int n @ ''_T1''" "k \<noteq> ''G'' @ show_int n @ ''_T2''"
    and rest: "\<forall>n\<in>fst ` set ms. k \<noteq> ''G'' @ show_int n @ ''_T1'' \<and> k \<noteq> ''G'' @ show_int n @ ''_T2''"
    by (auto simp: e)
  show ?case unfolding e bracket_text_sources.simps Cons.IH [OF rest]
    using k by (simp only: update_conv') simp
qed

lemma bracket_text_sources_values:
  assumes "distinct (map fst ms)" and "(n, t1, t2) \<in> set ms"
  shows "map_of (bracket_text_sources ms acc) (''G'' @ show_int n @ ''_T1'') = Some t1
       \<and> map_of (bracket_text_sources ms acc) (''G'' @ show_int n @ ''_T2'') = Some t2"
  using assms
proof (induction ms arbitrary: acc)
  case Nil
  then show ?case by simp
next
  case (Cons e ms)
  obtain n' a c where e: "e = (n', a, c)" by (cases e)
  show ?case
  proof (cases "(n, t1, t2) \<in> set ms")
    case True
    with Cons.prems Cons.IH show ?thesis by (simp add: e)
  next
    case False
    with Cons.prems have eq: "n' = n" "a = t1" "c = t2" and notin: "n \<notin> fst ` set ms"
      by (auto simp: e)
    have o1: "\<forall>m\<in>fst ` set ms. ''G'' @ show_int n @ ''_T1'' \<noteq> ''G'' @ show_int m @ ''_T1''
        \<and> ''G'' @ show_int n @ ''_T1'' \<noteq> ''G'' @ show_int m @ ''_T2''"
      using notin key_T1_inj key_T1_T2 by blast
    have o2: "\<forall>m\<in>fst ` set ms. ''G'' @ show_int n @ ''_T2'' \<noteq> ''G'' @ show_int m @ ''_T1''
        \<and> ''G'' @ show_int n @ ''_T2'' \<noteq> ''G'' @ show_int m @ ''_T2''"
      using notin key_T2_inj key_T1_T2 by metis
    show ?thesis
      unfolding e eq bracket_text_sources.simps
        bracket_text_sources_other [OF o1] bracket_text_sources_other [OF o2]
      using key_T1_T2 [of n n] by (simp only: update_conv') simp
  qed
qed

text \<open>
  C6: \<open>get_bracket_text_sources\<close> reads the match dict and nothing else, so equal
  match dicts give equal results. The keys of the result are exactly \<^verbatim>\<open>G{n}_T1\<close> and
  \<^verbatim>\<open>G{n}_T2\<close> for the play orders \<open>n\<close> of the match dict, and \<^verbatim>\<open>G{n}_Ts\<close> holds
  the name of side \<open>s\<close> of game \<open>n\<close> (\<open>JNull\<close> when absent).
\<close>

theorem get_bracket_text_sources_mapping:
  assumes "distinct (map fst (MATCHES b))"
  shows "fst ` set (get_bracket_text_sources b) =
           (\<Union>n\<in>fst ` set (MATCHES b). {''G'' @ show_int n @ ''_T1'', ''G'' @ show_int n @ ''_T2''})
       \<and> (\<forall>n t1 t2. map_of (MATCHES b) n = Some (t1, t2) \<longrightarrow>
             map_of (get_bracket_text_sources b) (''G'' @ show_int n @ ''_T1'') = Some t1
           \<and> map_of (get_bracket_text_sources b) (''G'' @ show_int n @ ''_T2'') = Some t2)
       \<and> (\<forall>b'. MATCHES b' = MATCHES b \<longrightarrow> get_bracket_text_sources b' = get_bracket_text_sources b)"
proof (intro conjI allI impI)
  show "fst ` set (get_bracket_text_sources b) =
      (\<Union>n\<in>fst ` set (MATCHES b). {''G'' @ show_int n @ ''_T1'', ''G'' @ show_int n @ ''_T2''})"
    by (simp add: get_bracket_text_sources_def bracket_text_sources_keys)
next
  fix n t1 t2 assume "map_of (MATCHES b) n = Some (t1, t2)"
  then have m: "(n, t1, t2) \<in> set (MATCHES b)" by (rule map_of_SomeD)
  from bracket_text_sources_values [OF assms m, of "[]"]
  show "map_of (get_bracket_text_sources b) (''G'' @ show_int n @ ''_T1'') = Some t1"
    and "map_of (get_bracket_text_sources b) (''G'' @ show_int n @ ''_T2'') = Some t2"
    by (simp_all add: get_bracket_text_sources_def)
next
  fix b' :: bracket assume "MATCHES b' = MATCHES b"
  then show "get_bracket_text_sources b' = get_bracket_text_sources b"
    by (simp add: get_bracket_text_sources_def)
qed

theorem get_bracket_text_sources_mapping_witness:
  "distinct (map fst [(12 :: int, JStr ''Alpha'', JNull), (- 3, JStr ''A'', JStr ''B'')])
   \<and> fst ` set (get_bracket_text_sources
        \<lparr>API_KEY = [], TOURNAMENT_ID = [], PARTICIPANTS = [],
         MATCHES = [(12, JStr ''Alpha'', JNull), (- 3, JStr ''A'', JStr ''B'')], printed = []\<rparr>) =
       {''G12_T1'', ''G12_T2'', ''G-3_T1'', ''G-3_T2''}
   \<and> map_of (get_bracket_text_sources
        \<lparr>API_KEY = [], TOURNAMENT_ID = [], PARTICIPANTS = [],
         MATCHES = [(12, JStr ''Alpha'', JNull), (- 3, JStr ''A'', JStr ''B'')], printed = []\<rparr>)
       ''G12_T2'' = Some JNull"
proof -
  let ?b = "\<lparr>API_KEY = [], TOURNAMENT_ID = [], PARTICIPANTS = [],
         MATCHES = [(12, JStr ''Alpha'', JNull), (- 3, JStr ''A'', JStr ''B'')], printed = []\<rparr>"
  have s12: "show_int 12 = ''12''" by code_simp
  have s3: "show_int (- 3) = ''-3''" by code_simp
  have d: "distinct (map fst (MATCHES ?b))" by simp
  note t = get_bracket_text_sources_mapping [OF d]
  from t have "fst ` set (get_bracket_text_sources ?b) =
      (\<Union>n\<in>fst ` set (MATCHES ?b). {''G'' @ show_int n @ ''_T1'', ''G'' @ show_int n @ ''_T2''})"
    by (rule conjunct1)
  then have k: "fst ` set (get_bracket_text_sources ?b) = {''G12_T1'', ''G12_T2'', ''G-3_T1'', ''G-3_T2''}"
    by (simp add: s12 s3 insert_commute)
  from t have "map_of (MATCHES ?b) 12 = Some (JStr ''Alpha'', JNull) \<longrightarrow>
      map_of (get_bracket_text_sources ?b) (''G'' @ show_int 12 @ ''_T1'') = Some (JStr ''Alpha'')
    \<and> map_of (get_bracket_text_sources ?b) (''G'' @ show_int 12 @ ''_T2'') = Some JNull"
    by blast
  then have v: "map_of (get_bracket_text_sources ?b) ''G12_T2'' = Some JNull"
    by (simp add: s12)
  from d k v show ?thesis by simp
qed

subsection \<open>The source synchroniser\<close>

lemma first_index_None: "first_index P xs = None \<longleftrightarrow> (\<forall>x\<in>set xs. \<not> P x)"
  by (induction xs) auto

lemma first_index_Some:
  "first_index P xs = Some i \<longleftrightarrow> i < length xs \<and> P (xs ! i) \<and> (\<forall>j<i. \<not> P (xs ! j))"
proof (induction xs arbitrary: i)
  case Nil
  then show ?case by simp
next
  case (Cons x xs)
  show ?case
  proof (cases "P x")
    case True
    then show ?thesis by (cases i) auto
  next
    case False
    show ?thesis
    proof (cases i)
      case 0
      with False show ?thesis by auto
    next
      case (Suc k)
      have "(\<forall>j<Suc k. \<not> P ((x # xs) ! j)) \<longleftrightarrow> (\<forall>j<k. \<not> P (xs ! j))"
        using False by (auto simp: less_Suc_eq_0_disj)
      with False Suc Cons.IH [of k] show ?thesis by auto
    qed
  qed
qed

lemma find_first_index: "List.find P xs = map_option ((!) xs) (first_index P xs)"
  by (induction xs) (auto simp: option.map_comp comp_def)

lemma first_index_name_of_match:
  assumes "first_index (matches_prefix pfx) xs = Some i"
  shows "first_index (\<lambda>s. src_name s = src_name (xs ! i)) xs = Some i"
proof -
  from assms have i: "i < length xs" "matches_prefix pfx (xs ! i)"
    and before: "\<forall>j<i. \<not> matches_prefix pfx (xs ! j)"
    by (simp_all add: first_index_Some)
  have "\<forall>j<i. src_name (xs ! j) \<noteq> src_name (xs ! i)"
    using i(2) before by (auto simp: matches_prefix_def)
  with i(1) show ?thesis by (simp add: first_index_Some)
qed

lemma set_browser_source_url_sources:
  "obs_sources (set_browser_source_url str_of w pfx player_name twitch_username) =
     browser_step pfx (position_name str_of pfx player_name) (position_url str_of twitch_username)
       (obs_sources w)"
proof (cases "pfx = []")
  case True
  then show ?thesis by (simp add: set_browser_source_url_def browser_step_def)
next
  case pfx: False
  show ?thesis
  proof (cases "first_index (matches_prefix pfx) (obs_sources w)")
    case None
    then have "find_source_by_prefix w pfx = None"
      by (simp add: find_source_by_prefix_def find_first_index matches_prefix_def [abs_def])
    with None pfx show ?thesis
      by (simp add: set_browser_source_url_def browser_step_def print_def)
  next
    case (Some i)
    then have i: "i < length (obs_sources w)" "matches_prefix pfx (obs_sources w ! i)"
      by (simp_all add: first_index_Some)
    have f: "find_source_by_prefix w pfx = Some (src_name (obs_sources w ! i))"
      using Some by (simp add: find_source_by_prefix_def find_first_index matches_prefix_def [abs_def])
    have g: "obs_get_source_by_name (w\<lparr>stdout := out\<rparr>) (src_name (obs_sources w ! i)) = Some i" for out
      using first_index_name_of_match [OF Some] by (simp add: obs_get_source_by_name_def)
    from i(2) have ne: "src_name (obs_sources w ! i) \<noteq> []" by (simp add: matches_prefix_def)
    show ?thesis
      using pfx Some i(1) ne
      by (simp add: set_browser_source_url_def browser_step_def f g Let_def
          obs_source_set_name_def obs_source_update_def print_def browser_write_def
          position_name_def position_url_def)
  qed
qed

lemma set_text_source_sources:
  "obs_sources (set_text_source w source_name text) = text_step source_name text (obs_sources w)"
  by (auto simp: set_text_source_def text_step_def obs_get_source_by_name_def
      obs_source_update_def print_def split: option.splits)

lemma set_browser_source_url_roster:
  "TEAM_ROSTER (set_browser_source_url str_of w pfx player_name twitch_username) = TEAM_ROSTER w"
  by (auto simp: set_browser_source_url_def Let_def obs_source_set_name_def obs_source_update_def
      print_def split: option.splits)

lemma set_text_source_roster:
  "TEAM_ROSTER (set_text_source w source_name text) = TEAM_ROSTER w"
  by (auto simp: set_text_source_def obs_source_update_def print_def split: option.splits)

lemma apply_position_short:
  "position_short tup \<Longrightarrow> apply_position str_of w pfx tup = (w, Some IndexError)"
  by (auto simp: apply_position_def position_short_def get_player_name_def get_twitch_link_def
      split: option.splits)

lemma apply_position_ok:
  "\<not> position_short tup \<Longrightarrow>
   apply_position str_of w pfx tup =
     (set_browser_source_url str_of w pfx (case tup of None \<Rightarrow> JNull | Some vs \<Rightarrow> vs ! 0)
        (case tup of None \<Rightarrow> JNull | Some vs \<Rightarrow> vs ! 1), None)"
  by (auto simp: apply_position_def position_short_def get_player_name_def get_twitch_link_def
      split: option.splits)

lemma apply_team_to_sources_error:
  "snd (apply_team_to_sources str_of w team ns hp mp fp bp) =
     (if position_short (helm team) \<or> position_short (mc team)
         \<or> position_short (flex team) \<or> position_short (bilge team)
      then Some IndexError else None)"
  by (cases "position_short (helm team)"; cases "position_short (mc team)";
      cases "position_short (flex team)"; cases "position_short (bilge team)")
     (simp_all add: apply_team_to_sources_def Let_def apply_position_short apply_position_ok)

lemma apply_team_to_sources_sources:
  "obs_sources (fst (apply_team_to_sources str_of w team ns hp mp fp bp)) =
     run_steps (team_steps str_of team hp mp fp bp) (text_step ns (name team) (obs_sources w))"
  by (cases "position_short (helm team)"; cases "position_short (mc team)";
      cases "position_short (flex team)"; cases "position_short (bilge team)")
     (simp_all add: apply_team_to_sources_def Let_def apply_position_short apply_position_ok
        team_steps_def set_browser_source_url_sources set_text_source_sources)

lemma apply_team_to_sources_roster:
  "TEAM_ROSTER (fst (apply_team_to_sources str_of w team ns hp mp fp bp)) = TEAM_ROSTER w"
  by (cases "position_short (helm team)"; cases "position_short (mc team)";
      cases "position_short (flex team)"; cases "position_short (bilge team)")
     (simp_all add: apply_team_to_sources_def Let_def apply_position_short apply_position_ok
        set_browser_source_url_roster set_text_source_roster)

lemma load_roster_stored:
  assumes "py_getitem data ''teams'' = Inr (JObj teams)"
    and "distinct (map fst teams)"
    and "(tn, JObj kvs) \<in> set teams"
    and "snd (load_roster (Loaded data) w) = None"
  shows "\<exists>t. make_team tn (JObj kvs) = Inr t
           \<and> get_team (fst (load_roster (Loaded data) w)) tn = Some t"
proof -
  from assms(1,4) obtain w2 where
    lt: "load_teams teams (w\<lparr>TEAM_ROSTER := []\<rparr>) = (w2, None)" and
    res: "fst (load_roster (Loaded data) w) = print (RosterLoaded (length (TEAM_ROSTER w2))) w2"
    by (auto simp: load_roster_def Let_def split: prod.splits option.splits)
  from load_teams_stored [OF lt assms(2,3)] obtain t where
    "make_team tn (JObj kvs) = Inr t" "map_of (TEAM_ROSTER w2) tn = Some t"
    by blast
  then show ?thesis by (auto simp: res get_team_def print_def)
qed

lemma make_team_position:
  assumes "make_team tn (JObj kvs) = Inr t"
    and "k \<in> set [''helm'', ''mc'', ''flex'', ''bilge'']"
    and "map_of kvs k = Some (JObj fs)" and "map_of fs ''name'' = Some n" and "truthy n"
  shows "team_position k t = Some (map snd fs)"
proof -
  have u: "\<not> slot_unnamed kvs k" and v: "slot_values kvs k = map snd fs"
    using assms(3-5) by (simp_all add: slot_unnamed_def slot_values_def)
  from assms(2) consider "k = ''helm''" | "k = ''mc''" | "k = ''flex''" | "k = ''bilge''"
    by auto
  then show ?thesis
    using make_team_result [OF assms(1)] u v
    by cases (simp_all add: team_position_def)
qed

lemma team_position_short:
  assumes "k \<in> set [''helm'', ''mc'', ''flex'', ''bilge'']" and "position_short (team_position k t)"
  shows "position_short (helm t) \<or> position_short (mc t)
       \<or> position_short (flex t) \<or> position_short (bilge t)"
  using assms by (auto simp: team_position_def split: if_splits)

text \<open>
  C9: the loader stores a filled position as the tuple of the record's values in their
  order. So for a roster that loaded without an exception and a team record whose
  slot holds a non-empty \<^verbatim>\<open>"name"\<close>, the Team in the roster has that tuple as its
  position; \<open>get_twitch_link\<close> raises IndexError on it exactly when the record has
  fewer than two values, and then \<open>apply_team_to_sources\<close> on that Team raises
  IndexError. In general \<open>get_twitch_link\<close> raises exactly on tuples of fewer than two
  members; with two or more, the first is taken for the player name and the second for
  the channel; and \<open>apply_team_to_sources\<close> raises IndexError exactly when one of the
  team's four positions is such a short tuple.
\<close>

theorem position_arity:
  "(py_getitem data ''teams'' = Inr (JObj teams) \<and> distinct (map fst teams)
      \<and> (tn, JObj kvs) \<in> set teams \<and> snd (load_roster (Loaded data) v) = None
      \<and> k \<in> set [''helm'', ''mc'', ''flex'', ''bilge'']
      \<and> map_of kvs k = Some (JObj fs) \<and> map_of fs ''name'' = Some n \<and> truthy n \<longrightarrow>
      (\<exists>t. get_team (fst (load_roster (Loaded data) v)) tn = Some t
           \<and> team_position k t = Some (map snd fs)
           \<and> (get_twitch_link (team_position k t) = Inl IndexError \<longleftrightarrow> length fs < 2)
           \<and> (length fs < 2 \<longrightarrow>
                 snd (apply_team_to_sources str_of w t ns hp mp fp bp) = Some IndexError)))
   \<and> (map_of kvs k = Some (JObj fs) \<and> map_of fs ''name'' = Some n \<and> truthy n \<longrightarrow>
      slot_tup (JObj kvs) k = Inr (Some (map snd fs)))
   \<and> get_twitch_link (Some [x]) = Inl IndexError
   \<and> (get_twitch_link (Some tup) = Inl IndexError \<longleftrightarrow> length tup < 2)
   \<and> (2 \<le> length tup \<longrightarrow>
        get_player_name (Some tup) = Inr (tup ! 0) \<and> get_twitch_link (Some tup) = Inr (tup ! 1))
   \<and> get_player_name None = Inr JNull \<and> get_twitch_link None = Inr JNull
   \<and> snd (apply_team_to_sources str_of w team ns hp mp fp bp) =
       (if position_short (helm team) \<or> position_short (mc team)
           \<or> position_short (flex team) \<or> position_short (bilge team)
        then Some IndexError else None)"
proof -
  have stored: "\<exists>t. get_team (fst (load_roster (Loaded data) v)) tn = Some t
           \<and> team_position k t = Some (map snd fs)
           \<and> (get_twitch_link (team_position k t) = Inl IndexError \<longleftrightarrow> length fs < 2)
           \<and> (length fs < 2 \<longrightarrow>
                 snd (apply_team_to_sources str_of w t ns hp mp fp bp) = Some IndexError)"
    if a: "py_getitem data ''teams'' = Inr (JObj teams)" "distinct (map fst teams)"
      "(tn, JObj kvs) \<in> set teams" "snd (load_roster (Loaded data) v) = None"
      and k: "k \<in> set [''helm'', ''mc'', ''flex'', ''bilge'']"
      and f: "map_of kvs k = Some (JObj fs)" "map_of fs ''name'' = Some n" "truthy n"
  proof -
    from load_roster_stored [OF a] obtain t where
      mt: "make_team tn (JObj kvs) = Inr t"
      and gt: "get_team (fst (load_roster (Loaded data) v)) tn = Some t" by blast
    have tp: "team_position k t = Some (map snd fs)"
      by (rule make_team_position [OF mt k f])
    have link: "get_twitch_link (team_position k t) = Inl IndexError \<longleftrightarrow> length fs < 2"
      by (simp add: tp get_twitch_link_def)
    have raise: "snd (apply_team_to_sources str_of w t ns hp mp fp bp) = Some IndexError"
      if "length fs < 2"
    proof -
      from that have "position_short (team_position k t)" by (simp add: tp position_short_def)
      from team_position_short [OF k this] show ?thesis
        by (simp add: apply_team_to_sources_error)
    qed
    from gt tp link raise show ?thesis by blast
  qed
  have rest: "(map_of kvs k = Some (JObj fs) \<and> map_of fs ''name'' = Some n \<and> truthy n \<longrightarrow>
      slot_tup (JObj kvs) k = Inr (Some (map snd fs)))
   \<and> get_twitch_link (Some [x]) = Inl IndexError
   \<and> (get_twitch_link (Some tup) = Inl IndexError \<longleftrightarrow> length tup < 2)
   \<and> (2 \<le> length tup \<longrightarrow>
        get_player_name (Some tup) = Inr (tup ! 0) \<and> get_twitch_link (Some tup) = Inr (tup ! 1))
   \<and> get_player_name None = Inr JNull \<and> get_twitch_link None = Inr JNull
   \<and> snd (apply_team_to_sources str_of w team ns hp mp fp bp) =
       (if position_short (helm team) \<or> position_short (mc team)
           \<or> position_short (flex team) \<or> position_short (bilge team)
        then Some IndexError else None)"
    by (auto simp: slot_tup_def py_get_def get_twitch_link_def get_player_name_def
        apply_team_to_sources_error dest: map_of_SomeD)
  from stored rest show ?thesis by blast
qed


theorem position_arity_witness:
  "get_team (fst (load_roster (Loaded (JObj [(''teams'', JObj [(''Alpha'', JObj [(''helm'', JObj [(''name'', JStr ''X'')])])])]))
       \<lparr>TEAM_ROSTER = [], obs_sources = [], stdout = []\<rparr>)) ''Alpha'' =
     Some \<lparr>name = ''Alpha'', helm = Some [JStr ''X''], flex = None, mc = None, bilge = None\<rparr>
   \<and> team_position ''helm'' \<lparr>name = ''Alpha'', helm = Some [JStr ''X''], flex = None, mc = None, bilge = None\<rparr> = Some [JStr ''X'']
   \<and> get_twitch_link (Some [JStr ''X'']) = Inl IndexError
   \<and> (case get_team (fst (load_roster (Loaded (JObj [(''teams'', JObj [(''Alpha'', JObj [(''helm'', JObj [(''name'', JStr ''X'')])])])]))
         \<lparr>TEAM_ROSTER = [], obs_sources = [], stdout = []\<rparr>)) ''Alpha'' of
        None \<Rightarrow> False
      | Some t \<Rightarrow>
          snd (apply_team_to_sources str_of_none
            \<lparr>TEAM_ROSTER = [], obs_sources = [\<lparr>src_name = ''T1H - a'', settings = []\<rparr>], stdout = []\<rparr>
            t T1_NAME_SOURCE T1_HELM_PREFIX T1_MC_PREFIX T1_FLEX_PREFIX T1_BILGE_PREFIX) =
          Some IndexError)
   \<and> get_player_name (Some [JStr ''X'', JStr ''x1'']) = Inr (JStr ''X'')
   \<and> get_twitch_link (Some [JStr ''X'', JStr ''x1'']) = Inr (JStr ''x1'')"
proof -
  let ?d = "(JObj [(''teams'', JObj [(''Alpha'', JObj [(''helm'', JObj [(''name'', JStr ''X'')])])])])"
  let ?e = "\<lparr>TEAM_ROSTER = [], obs_sources = [], stdout = []\<rparr>"
  let ?w = "\<lparr>TEAM_ROSTER = [], obs_sources = [\<lparr>src_name = ''T1H - a'', settings = []\<rparr>], stdout = []\<rparr>"
  let ?t = "\<lparr>name = ''Alpha'', helm = Some [JStr ''X''], flex = None, mc = None, bilge = None\<rparr>"
  have ev: "get_team (fst (load_roster (Loaded ?d) ?e)) ''Alpha'' = Some ?t"
    by code_simp
  have h: "py_getitem ?d ''teams'' =
        Inr (JObj [(''Alpha'', JObj [(''helm'', JObj [(''name'', JStr ''X'')])])])
      \<and> distinct (map fst [(''Alpha'', JObj [(''helm'', JObj [(''name'', JStr ''X'')])])])
      \<and> (''Alpha'', JObj [(''helm'', JObj [(''name'', JStr ''X'')])])
            \<in> set [(''Alpha'', JObj [(''helm'', JObj [(''name'', JStr ''X'')])])]
      \<and> snd (load_roster (Loaded ?d) ?e) = None
      \<and> ''helm'' \<in> set [''helm'', ''mc'', ''flex'', ''bilge'']
      \<and> map_of [(''helm'', JObj [(''name'', JStr ''X'')])] ''helm'' = Some (JObj [(''name'', JStr ''X'')])
      \<and> map_of [(''name'', JStr ''X'')] ''name'' = Some (JStr ''X'') \<and> truthy (JStr ''X'')"
    by code_simp
  note pa = position_arity [where data = ?d
      and teams = "[(''Alpha'', JObj [(''helm'', JObj [(''name'', JStr ''X'')])])]"
      and tn = "''Alpha''" and kvs = "[(''helm'', JObj [(''name'', JStr ''X'')])]"
      and v = ?e and k = "''helm''" and fs = "[(''name'', JStr ''X'')]" and n = "JStr ''X''"
      and str_of = str_of_none and w = ?w and ns = T1_NAME_SOURCE and hp = T1_HELM_PREFIX
      and mp = T1_MC_PREFIX and fp = T1_FLEX_PREFIX and bp = T1_BILGE_PREFIX
      and x = "JStr ''X''" and tup = "[JStr ''X'', JStr ''x1'']" and team = ?t]
  from pa h obtain t where
    t: "get_team (fst (load_roster (Loaded ?d) ?e)) ''Alpha'' = Some t"
      "team_position ''helm'' t = Some (map snd [(''name'', JStr ''X'')])"
      "length [(''name'', JStr ''X'')] < 2 \<longrightarrow>
         snd (apply_team_to_sources str_of_none ?w t T1_NAME_SOURCE T1_HELM_PREFIX
            T1_MC_PREFIX T1_FLEX_PREFIX T1_BILGE_PREFIX) = Some IndexError"
    by blast
  from t(1) ev have tt: "t = ?t" by simp
  from pa have acc: "get_twitch_link (Some [JStr ''X'']) = Inl IndexError"
      "2 \<le> length [JStr ''X'', JStr ''x1''] \<longrightarrow>
        get_player_name (Some [JStr ''X'', JStr ''x1'']) = Inr ([JStr ''X'', JStr ''x1''] ! 0)
        \<and> get_twitch_link (Some [JStr ''X'', JStr ''x1'']) = Inr ([JStr ''X'', JStr ''x1''] ! 1)"
    by blast+
  from ev t(2,3) tt acc show ?thesis by simp
qed

lemma keeps_refl: "keeps Q xs xs"
  by (simp add: keeps_def)

lemma keeps_trans: "keeps Q xs ys \<Longrightarrow> keeps Q ys zs \<Longrightarrow> keeps Q xs zs"
  unfolding keeps_def by metis

lemma browser_step_keeps:
  assumes "\<And>s. prefix pfx (src_name s) \<Longrightarrow> \<not> Q s" and "prefix pfx n"
  shows "keeps Q xs (browser_step pfx n u xs)"
proof (cases "first_index (matches_prefix pfx) xs")
  case None
  then show ?thesis by (simp add: browser_step_def keeps_def)
next
  case (Some i)
  then have i: "i < length xs" "matches_prefix pfx (xs ! i)" by (simp_all add: first_index_Some)
  have "\<not> Q (xs ! i)" using assms(1) i(2) by (simp add: matches_prefix_def)
  moreover have "\<not> Q (browser_write n u (xs ! i))"
    using assms by (simp add: browser_write_def)
  ultimately show ?thesis
    using Some i(1) by (auto simp: browser_step_def keeps_def nth_list_update)
qed

lemma text_step_keeps:
  assumes "\<And>s. src_name s = nm \<Longrightarrow> \<not> Q s"
  shows "keeps Q xs (text_step nm text xs)"
proof (cases "first_index (\<lambda>s. src_name s = nm) xs")
  case None
  then show ?thesis by (simp add: text_step_def keeps_def)
next
  case (Some i)
  then have i: "i < length xs" "src_name (xs ! i) = nm" by (simp_all add: first_index_Some)
  have "\<not> Q (xs ! i)" using assms i(2) by simp
  moreover have "\<not> Q ((xs ! i)\<lparr>settings := AList.update ''text'' text (settings (xs ! i))\<rparr>)"
    using assms i(2) by simp
  ultimately show ?thesis
    using Some i(1) by (auto simp: text_step_def keeps_def nth_list_update)
qed

lemma run_steps_keeps:
  assumes "\<forall>(pfx, n, u)\<in>set steps. prefix pfx n \<and> (\<forall>s. prefix pfx (src_name s) \<longrightarrow> \<not> Q s)"
  shows "keeps Q xs (run_steps steps xs)"
  using assms
proof (induction steps arbitrary: xs)
  case Nil
  then show ?case by (simp add: keeps_refl)
next
  case (Cons st steps)
  obtain pfx n u where st: "st = (pfx, n, u)" by (cases st)
  from Cons.prems have a: "prefix pfx n" "\<And>s. prefix pfx (src_name s) \<Longrightarrow> \<not> Q s"
    and rest: "\<forall>(pfx, n, u)\<in>set steps. prefix pfx n \<and> (\<forall>s. prefix pfx (src_name s) \<longrightarrow> \<not> Q s)"
    by (auto simp: st)
  from browser_step_keeps [of pfx Q n xs u, OF a(2) a(1)] Cons.IH [OF rest]
  show ?case unfolding st run_steps.simps by (rule keeps_trans)
qed

lemma position_name_prefix: "prefix pfx (position_name str_of pfx v)"
  by (simp add: position_name_def)

lemma team_steps_prefixes:
  "(pfx, n, u) \<in> set (team_steps str_of team hp mp fp bp) \<Longrightarrow>
     pfx \<in> {hp, mp, fp, bp} \<and> prefix pfx n"
  by (auto simp: team_steps_def position_name_prefix dest!: set_takeWhileD)


lemma side1_prefix_not_side2:
  assumes "pfx \<in> {T1_HELM_PREFIX, T1_MC_PREFIX, T1_FLEX_PREFIX, T1_BILGE_PREFIX}"
    and "prefix pfx (src_name s)"
  shows "\<not> side2_source s"
  using assms
  by (auto simp: side2_source_def T1_HELM_PREFIX_def T1_MC_PREFIX_def T1_FLEX_PREFIX_def
      T1_BILGE_PREFIX_def T2_NAME_SOURCE_def T2_HELM_PREFIX_def T2_MC_PREFIX_def
      T2_FLEX_PREFIX_def T2_BILGE_PREFIX_def prefix_def)

lemma side2_prefix_not_side1:
  assumes "pfx \<in> {T2_HELM_PREFIX, T2_MC_PREFIX, T2_FLEX_PREFIX, T2_BILGE_PREFIX}"
    and "prefix pfx (src_name s)"
  shows "\<not> side1_source s"
  using assms
  by (auto simp: side1_source_def T2_HELM_PREFIX_def T2_MC_PREFIX_def T2_FLEX_PREFIX_def
      T2_BILGE_PREFIX_def T1_NAME_SOURCE_def T1_HELM_PREFIX_def T1_MC_PREFIX_def
      T1_FLEX_PREFIX_def T1_BILGE_PREFIX_def prefix_def)

lemma side1_name_not_side2: "src_name s = T1_NAME_SOURCE \<Longrightarrow> \<not> side2_source s"
  by (auto simp: side2_source_def T1_NAME_SOURCE_def T2_NAME_SOURCE_def T2_HELM_PREFIX_def
      T2_MC_PREFIX_def T2_FLEX_PREFIX_def T2_BILGE_PREFIX_def prefix_def)

lemma side2_name_not_side1: "src_name s = T2_NAME_SOURCE \<Longrightarrow> \<not> side1_source s"
  by (auto simp: side1_source_def T1_NAME_SOURCE_def T2_NAME_SOURCE_def T1_HELM_PREFIX_def
      T1_MC_PREFIX_def T1_FLEX_PREFIX_def T1_BILGE_PREFIX_def prefix_def)

lemma apply_team1_keeps_side2:
  "keeps side2_source (obs_sources w)
     (obs_sources (fst (apply_team_to_sources str_of w team T1_NAME_SOURCE T1_HELM_PREFIX
        T1_MC_PREFIX T1_FLEX_PREFIX T1_BILGE_PREFIX)))"
proof -
  have "keeps side2_source (obs_sources w) (text_step T1_NAME_SOURCE (name team) (obs_sources w))"
    by (rule text_step_keeps) (rule side1_name_not_side2)
  moreover have "keeps side2_source (text_step T1_NAME_SOURCE (name team) (obs_sources w))
     (run_steps (team_steps str_of team T1_HELM_PREFIX T1_MC_PREFIX T1_FLEX_PREFIX T1_BILGE_PREFIX)
        (text_step T1_NAME_SOURCE (name team) (obs_sources w)))"
    by (rule run_steps_keeps) (use team_steps_prefixes side1_prefix_not_side2 in blast)
  ultimately show ?thesis
    unfolding apply_team_to_sources_sources by (rule keeps_trans)
qed

lemma apply_team2_keeps_side1:
  "keeps side1_source (obs_sources w)
     (obs_sources (fst (apply_team_to_sources str_of w team T2_NAME_SOURCE T2_HELM_PREFIX
        T2_MC_PREFIX T2_FLEX_PREFIX T2_BILGE_PREFIX)))"
proof -
  have "keeps side1_source (obs_sources w) (text_step T2_NAME_SOURCE (name team) (obs_sources w))"
    by (rule text_step_keeps) (rule side2_name_not_side1)
  moreover have "keeps side1_source (text_step T2_NAME_SOURCE (name team) (obs_sources w))
     (run_steps (team_steps str_of team T2_HELM_PREFIX T2_MC_PREFIX T2_FLEX_PREFIX T2_BILGE_PREFIX)
        (text_step T2_NAME_SOURCE (name team) (obs_sources w)))"
    by (rule run_steps_keeps) (use team_steps_prefixes side2_prefix_not_side1 in blast)
  ultimately show ?thesis
    unfolding apply_team_to_sources_sources by (rule keeps_trans)
qed

lemma execute_transition_side1_only:
  assumes "get_team w known = Some team" and "get_team w missing = None"
    and "snd (apply_team_to_sources str_of (print (ExecutingTransition known missing) w) team
           T1_NAME_SOURCE T1_HELM_PREFIX T1_MC_PREFIX T1_FLEX_PREFIX T1_BILGE_PREFIX) = None"
  shows "execute_transition str_of w known missing =
          (print TransitionComplete (print (Team2NotFound missing)
             (fst (apply_team_to_sources str_of (print (ExecutingTransition known missing) w) team
                T1_NAME_SOURCE T1_HELM_PREFIX T1_MC_PREFIX T1_FLEX_PREFIX T1_BILGE_PREFIX))), None)"
proof -
  let ?w0 = "print (ExecutingTransition known missing) w"
  let ?r = "apply_team_to_sources str_of ?w0 team
      T1_NAME_SOURCE T1_HELM_PREFIX T1_MC_PREFIX T1_FLEX_PREFIX T1_BILGE_PREFIX"
  have g1: "get_team ?w0 known = Some team" using assms(1) by (simp add: get_team_def print_def)
  have "TEAM_ROSTER (fst ?r) = TEAM_ROSTER w"
    by (simp add: apply_team_to_sources_roster print_def)
  then have g2: "get_team (fst ?r) missing = None" using assms(2) by (simp add: get_team_def)
  obtain w1 where r: "?r = (w1, None)" using assms(3) by (cases ?r) auto
  with g2 have g2': "get_team w1 missing = None" by simp
  show ?thesis
    unfolding execute_transition_def Let_def g1 by (simp add: r g2')
qed

lemma execute_transition_side2_only:
  assumes "get_team w known = Some team" and "get_team w missing = None"
    and "snd (apply_team_to_sources str_of
           (print (Team1NotFound missing) (print (ExecutingTransition missing known) w)) team
           T2_NAME_SOURCE T2_HELM_PREFIX T2_MC_PREFIX T2_FLEX_PREFIX T2_BILGE_PREFIX) = None"
  shows "execute_transition str_of w missing known =
          (print TransitionComplete
             (fst (apply_team_to_sources str_of
                (print (Team1NotFound missing) (print (ExecutingTransition missing known) w)) team
                T2_NAME_SOURCE T2_HELM_PREFIX T2_MC_PREFIX T2_FLEX_PREFIX T2_BILGE_PREFIX)), None)"
proof -
  let ?w0 = "print (ExecutingTransition missing known) w"
  let ?w1 = "print (Team1NotFound missing) ?w0"
  let ?r = "apply_team_to_sources str_of ?w1 team
      T2_NAME_SOURCE T2_HELM_PREFIX T2_MC_PREFIX T2_FLEX_PREFIX T2_BILGE_PREFIX"
  have g1: "get_team ?w0 missing = None" using assms(2) by (simp add: get_team_def print_def)
  have g2: "get_team ?w1 known = Some team" using assms(1) by (simp add: get_team_def print_def)
  obtain w2 where r: "?r = (w2, None)" using assms(3) by (cases ?r) auto
  show ?thesis
    unfolding execute_transition_def Let_def g1 by (simp add: g2 r)
qed

lemma apply_team_to_sources_stdout_mono:
  "set (stdout w) \<subseteq> set (stdout (fst (apply_team_to_sources str_of w team ns hp mp fp bp)))"
proof -
  have sb: "set (stdout w) \<subseteq> set (stdout (set_browser_source_url str_of w pfx a c))" for w pfx a c
    by (auto simp: set_browser_source_url_def Let_def obs_source_set_name_def
        obs_source_update_def print_def split: option.splits)
  have st: "set (stdout w) \<subseteq> set (stdout (set_text_source w nm t))" for w nm t
    by (auto simp: set_text_source_def obs_source_update_def print_def split: option.splits)
  have ap: "set (stdout w) \<subseteq> set (stdout (fst (apply_position str_of w pfx tup)))" for w pfx tup
    using sb by (cases "position_short tup") (simp_all add: apply_position_short apply_position_ok)
  show ?thesis
    unfolding apply_team_to_sources_def Let_def
    by (auto split: prod.splits option.splits dest: subsetD [OF st] subsetD [OF ap])
       (metis ap fst_conv subsetD st)+
qed

text \<open>
  C1, amended: when one selected name is in the roster and the other is not, and every
  filled position of the team found has at least two values, \<open>execute_transition\<close>
  raises nothing, leaves the sources as \<open>apply_team_to_sources\<close> for the found team
  and its side's fixed names leaves them, leaves every source of the other side (its
  team-name source and the sources under its four prefixes) untouched, and prints the
  diagnostic for the missing team. This holds for a missing side 2 and for a missing
  side 1.
\<close>

theorem execute_transition_missing_side:
  assumes "get_team w known = Some team" and "get_team w missing = None"
    and "\<not> position_short (helm team)" and "\<not> position_short (mc team)"
    and "\<not> position_short (flex team)" and "\<not> position_short (bilge team)"
  shows "snd (execute_transition str_of w known missing) = None
       \<and> obs_sources (fst (execute_transition str_of w known missing)) =
           obs_sources (fst (apply_team_to_sources str_of w team T1_NAME_SOURCE T1_HELM_PREFIX
              T1_MC_PREFIX T1_FLEX_PREFIX T1_BILGE_PREFIX))
       \<and> keeps side2_source (obs_sources w)
            (obs_sources (fst (execute_transition str_of w known missing)))
       \<and> Team2NotFound missing \<in> set (stdout (fst (execute_transition str_of w known missing)))
       \<and> snd (execute_transition str_of w missing known) = None
       \<and> obs_sources (fst (execute_transition str_of w missing known)) =
           obs_sources (fst (apply_team_to_sources str_of w team T2_NAME_SOURCE T2_HELM_PREFIX
              T2_MC_PREFIX T2_FLEX_PREFIX T2_BILGE_PREFIX))
       \<and> keeps side1_source (obs_sources w)
            (obs_sources (fst (execute_transition str_of w missing known)))
       \<and> Team1NotFound missing \<in> set (stdout (fst (execute_transition str_of w missing known)))"
proof -
  let ?w0 = "print (ExecutingTransition known missing) w"
  let ?r1 = "apply_team_to_sources str_of ?w0 team
      T1_NAME_SOURCE T1_HELM_PREFIX T1_MC_PREFIX T1_FLEX_PREFIX T1_BILGE_PREFIX"
  let ?v1 = "print (Team1NotFound missing) (print (ExecutingTransition missing known) w)"
  let ?r2 = "apply_team_to_sources str_of ?v1 team
      T2_NAME_SOURCE T2_HELM_PREFIX T2_MC_PREFIX T2_FLEX_PREFIX T2_BILGE_PREFIX"
  have ok: "snd (apply_team_to_sources str_of w' team ns hp mp fp bp) = None" for w' ns hp mp fp bp
    using assms(3-6) by (simp add: apply_team_to_sources_error)
  note e1 = execute_transition_side1_only [OF assms(1,2) ok]
  note e2 = execute_transition_side2_only [OF assms(1,2) ok]
  have s0: "obs_sources ?w0 = obs_sources w" "obs_sources ?v1 = obs_sources w"
    by (simp_all add: print_def)
  have src1: "obs_sources (fst (execute_transition str_of w known missing)) =
      obs_sources (fst (apply_team_to_sources str_of w team T1_NAME_SOURCE T1_HELM_PREFIX
              T1_MC_PREFIX T1_FLEX_PREFIX T1_BILGE_PREFIX))"
    unfolding e1 by (simp add: print_def apply_team_to_sources_sources)
  have src2: "obs_sources (fst (execute_transition str_of w missing known)) =
      obs_sources (fst (apply_team_to_sources str_of w team T2_NAME_SOURCE T2_HELM_PREFIX
              T2_MC_PREFIX T2_FLEX_PREFIX T2_BILGE_PREFIX))"
    unfolding e2 by (simp add: print_def apply_team_to_sources_sources)
  have l1: "Team2NotFound missing \<in> set (stdout (fst (execute_transition str_of w known missing)))"
    unfolding e1 by (simp add: print_def)
  have "Team1NotFound missing \<in> set (stdout ?v1)" by (simp add: print_def)
  then have "Team1NotFound missing \<in> set (stdout (fst ?r2))"
    using apply_team_to_sources_stdout_mono by blast
  then have l2: "Team1NotFound missing \<in> set (stdout (fst (execute_transition str_of w missing known)))"
    unfolding e2 by (simp add: print_def)
  show ?thesis
    using src1 src2 l1 l2 apply_team1_keeps_side2 [of w str_of team]
      apply_team2_keeps_side1 [of w str_of team]
    by (simp add: e1 e2)
qed

theorem execute_transition_missing_side_witness:
  "get_team \<lparr>TEAM_ROSTER = [(''Alpha'', \<lparr>name = ''Alpha'', helm = Some [JStr ''X'', JStr ''x1''],
                                         flex = None, mc = None, bilge = None\<rparr>)],
             obs_sources = [\<lparr>src_name = ''Team 1'', settings = []\<rparr>,
                            \<lparr>src_name = ''T1H - old'', settings = []\<rparr>,
                            \<lparr>src_name = ''Team 2'', settings = [(''text'', ''Beta'')]\<rparr>,
                            \<lparr>src_name = ''T2H - Bob'', settings = [(''url'', ''u'')]\<rparr>],
             stdout = []\<rparr> ''Alpha'' = Some \<lparr>name = ''Alpha'', helm = Some [JStr ''X'', JStr ''x1''],
                                         flex = None, mc = None, bilge = None\<rparr>
   \<and> get_team \<lparr>TEAM_ROSTER = [(''Alpha'', \<lparr>name = ''Alpha'', helm = Some [JStr ''X'', JStr ''x1''],
                                         flex = None, mc = None, bilge = None\<rparr>)],
             obs_sources = [\<lparr>src_name = ''Team 1'', settings = []\<rparr>,
                            \<lparr>src_name = ''T1H - old'', settings = []\<rparr>,
                            \<lparr>src_name = ''Team 2'', settings = [(''text'', ''Beta'')]\<rparr>,
                            \<lparr>src_name = ''T2H - Bob'', settings = [(''url'', ''u'')]\<rparr>],
             stdout = []\<rparr> ''Ghost'' = None
   \<and> execute_transition str_of_none \<lparr>TEAM_ROSTER = [(''Alpha'', \<lparr>name = ''Alpha'', helm = Some [JStr ''X'', JStr ''x1''],
                                         flex = None, mc = None, bilge = None\<rparr>)],
             obs_sources = [\<lparr>src_name = ''Team 1'', settings = []\<rparr>,
                            \<lparr>src_name = ''T1H - old'', settings = []\<rparr>,
                            \<lparr>src_name = ''Team 2'', settings = [(''text'', ''Beta'')]\<rparr>,
                            \<lparr>src_name = ''T2H - Bob'', settings = [(''url'', ''u'')]\<rparr>],
             stdout = []\<rparr> ''Alpha'' ''Ghost'' =
       (\<lparr>TEAM_ROSTER = [(''Alpha'', \<lparr>name = ''Alpha'', helm = Some [JStr ''X'', JStr ''x1''],
                                         flex = None, mc = None, bilge = None\<rparr>)],
         obs_sources = [\<lparr>src_name = ''Team 1'', settings = [(''text'', ''Alpha'')]\<rparr>,
                        \<lparr>src_name = ''T1H - X'', settings = [(''url'',
     ''https://player.twitch.tv/?channel=x1&enableExtensions=true&muted=false&parent=twitch.tv&player=popout&quality=480p30&volume=0.69'')]\<rparr>,
                        \<lparr>src_name = ''Team 2'', settings = [(''text'', ''Beta'')]\<rparr>,
                        \<lparr>src_name = ''T2H - Bob'', settings = [(''url'', ''u'')]\<rparr>],
         stdout = [ExecutingTransition ''Alpha'' ''Ghost'', UpdatedText ''Team 1'' ''Alpha'',
                   FoundSource (Some ''T1H - old'') ''T1H -'',
                   UpdatedUrl ''T1H - X'' (JStr ''x1''),
                   FoundSource None ''T1MC -'', NoSourceWithPrefix ''T1MC -'',
                   FoundSource None ''T1F -'', NoSourceWithPrefix ''T1F -'',
                   FoundSource None ''T1B -'', NoSourceWithPrefix ''T1B -'',
                   Team2NotFound ''Ghost'', TransitionComplete]\<rparr>, None)"
proof -
  let ?w = "\<lparr>TEAM_ROSTER = [(''Alpha'', \<lparr>name = ''Alpha'', helm = Some [JStr ''X'', JStr ''x1''],
                                         flex = None, mc = None, bilge = None\<rparr>)],
             obs_sources = [\<lparr>src_name = ''Team 1'', settings = []\<rparr>,
                            \<lparr>src_name = ''T1H - old'', settings = []\<rparr>,
                            \<lparr>src_name = ''Team 2'', settings = [(''text'', ''Beta'')]\<rparr>,
                            \<lparr>src_name = ''T2H - Bob'', settings = [(''url'', ''u'')]\<rparr>],
             stdout = []\<rparr>"
  let ?t = "\<lparr>name = ''Alpha'', helm = Some [JStr ''X'', JStr ''x1''],
                                         flex = None, mc = None, bilge = None\<rparr>"
  have a: "get_team ?w ''Alpha'' = Some ?t" and g: "get_team ?w ''Ghost'' = None"
    by (simp_all add: get_team_def)
  have p: "\<not> position_short (helm ?t)" "\<not> position_short (mc ?t)"
      "\<not> position_short (flex ?t)" "\<not> position_short (bilge ?t)"
    by (simp_all add: position_short_def)
  have ev: "execute_transition str_of_none ?w ''Alpha'' ''Ghost'' =
       (\<lparr>TEAM_ROSTER = [(''Alpha'', \<lparr>name = ''Alpha'', helm = Some [JStr ''X'', JStr ''x1''],
                                         flex = None, mc = None, bilge = None\<rparr>)],
         obs_sources = [\<lparr>src_name = ''Team 1'', settings = [(''text'', ''Alpha'')]\<rparr>,
                        \<lparr>src_name = ''T1H - X'', settings = [(''url'',
     ''https://player.twitch.tv/?channel=x1&enableExtensions=true&muted=false&parent=twitch.tv&player=popout&quality=480p30&volume=0.69'')]\<rparr>,
                        \<lparr>src_name = ''Team 2'', settings = [(''text'', ''Beta'')]\<rparr>,
                        \<lparr>src_name = ''T2H - Bob'', settings = [(''url'', ''u'')]\<rparr>],
         stdout = [ExecutingTransition ''Alpha'' ''Ghost'', UpdatedText ''Team 1'' ''Alpha'',
                   FoundSource (Some ''T1H - old'') ''T1H -'',
                   UpdatedUrl ''T1H - X'' (JStr ''x1''),
                   FoundSource None ''T1MC -'', NoSourceWithPrefix ''T1MC -'',
                   FoundSource None ''T1F -'', NoSourceWithPrefix ''T1F -'',
                   FoundSource None ''T1B -'', NoSourceWithPrefix ''T1B -'',
                   Team2NotFound ''Ghost'', TransitionComplete]\<rparr>, None)"
    by code_simp
  from execute_transition_missing_side [OF a g p, of str_of_none]
  have "snd (execute_transition str_of_none ?w ''Alpha'' ''Ghost'') = None"
    by (rule conjunct1)
  with a g ev show ?thesis by simp
qed

text \<open>
  Without the condition on the positions the call can raise: a roster record with a
  name and nothing else loads as a 1-tuple, and selecting that team raises IndexError.
\<close>

theorem execute_transition_raises_counterexample:
  "get_team (fst (load_roster (Loaded (JObj [(''teams'', JObj [(''Alpha'',
        JObj [(''helm'', JObj [(''name'', JStr ''X'')])])])]))
        \<lparr>TEAM_ROSTER = [], obs_sources = [], stdout = []\<rparr>)) ''Alpha'' =
      Some \<lparr>name = ''Alpha'', helm = Some [JStr ''X''], flex = None, mc = None, bilge = None\<rparr>
   \<and> get_team (fst (load_roster (Loaded (JObj [(''teams'', JObj [(''Alpha'',
        JObj [(''helm'', JObj [(''name'', JStr ''X'')])])])]))
        \<lparr>TEAM_ROSTER = [], obs_sources = [], stdout = []\<rparr>)) ''Ghost'' = None
   \<and> snd (execute_transition str_of_none
        (fst (load_roster (Loaded (JObj [(''teams'', JObj [(''Alpha'',
        JObj [(''helm'', JObj [(''name'', JStr ''X'')])])])]))
           \<lparr>TEAM_ROSTER = [], obs_sources = [], stdout = []\<rparr>)) ''Alpha'' ''Ghost'') =
      Some IndexError"
  by code_simp

lemma browser_write_absorb [simp]:
  "browser_write n' u' (browser_write n u a) = browser_write n' u' a"
  by (simp add: browser_write_def)

lemma same_base_refl [simp]: "same_base a a"
  by (simp add: same_base_def)

lemma same_base_write: "same_base a b \<Longrightarrow> same_base a (browser_write n u b)"
  by (simp add: same_base_def)

lemma filter_single_index:
  assumes "length (filter Q xs) = 1" "i < length xs" "j < length xs" "Q (xs ! i)" "Q (xs ! j)"
  shows "i = j"
  using assms
proof (induction xs arbitrary: i j)
  case Nil
  then show ?case by simp
next
  case (Cons x xs)
  show ?case
  proof (cases "Q x")
    case True
    with Cons.prems(1) have "filter Q xs = []" by simp
    then have none: "\<forall>y\<in>set xs. \<not> Q y" by (simp add: filter_empty_conv)
    have "i = 0"
    proof (rule ccontr)
      assume "i \<noteq> 0"
      then obtain k where "i = Suc k" by (cases i) auto
      with Cons.prems(2,4) none show False by auto
    qed
    moreover have "j = 0"
    proof (rule ccontr)
      assume "j \<noteq> 0"
      then obtain k where "j = Suc k" by (cases j) auto
      with Cons.prems(3,5) none show False by auto
    qed
    ultimately show ?thesis by simp
  next
    case False
    with Cons.prems obtain k l where "i = Suc k" "j = Suc l"
      by (cases i; cases j) auto
    with Cons.prems False Cons.IH [of k l] show ?thesis by auto
  qed
qed

lemma unique_match_first:
  assumes "unique_match p xs" "i < length xs" "matches_prefix p (xs ! i)"
  shows "first_index (matches_prefix p) xs = Some i"
proof -
  have "\<forall>j<i. \<not> matches_prefix p (xs ! j)"
  proof (intro allI impI notI)
    fix j assume "j < i" "matches_prefix p (xs ! j)"
    with assms filter_single_index [of "matches_prefix p" xs i j] show False
      by (simp add: unique_match_def)
  qed
  with assms(2,3) show ?thesis by (simp add: first_index_Some)
qed

lemma unique_match_ex:
  assumes "unique_match p xs"
  shows "\<exists>i. first_index (matches_prefix p) xs = Some i"
proof (cases "first_index (matches_prefix p) xs")
  case None
  then have "filter (matches_prefix p) xs = []"
    by (simp add: first_index_None filter_empty_conv)
  with assms show ?thesis by (simp add: unique_match_def)
next
  case (Some i)
  then show ?thesis by blast
qed

lemma anchored_refl:
  assumes "\<forall>p\<in>P. unique_match p xs0"
  shows "anchored P xs0 xs0"
  using assms by (auto simp: anchored_def intro: unique_match_first)

lemma anchoredD:
  assumes "anchored P xs0 xs" "p \<in> P" "i < length xs0" "matches_prefix p (xs ! i)"
  shows "first_index (matches_prefix p) xs0 = Some i"
  using assms by (simp add: anchored_def)

lemma anchored_length: "anchored P xs0 xs \<Longrightarrow> length xs = length xs0"
  by (simp add: anchored_def)

lemma anchored_same_base: "anchored P xs0 xs \<Longrightarrow> i < length xs0 \<Longrightarrow> same_base (xs0 ! i) (xs ! i)"
  by (simp add: anchored_def)

lemma anchored_first_index:
  assumes "anchored P xs0 xs" "p \<in> P" "v < length xs0" "matches_prefix p (xs ! v)"
  shows "first_index (matches_prefix p) xs = Some v \<and> first_index (matches_prefix p) xs0 = Some v"
proof -
  from assms have len: "length xs = length xs0" by (simp add: anchored_def)
  from assms len have v0: "first_index (matches_prefix p) xs0 = Some v"
    by (simp add: anchored_def)
  have "\<forall>j<v. \<not> matches_prefix p (xs ! j)"
  proof (intro allI impI notI)
    fix j assume j: "j < v" "matches_prefix p (xs ! j)"
    from j(1) assms(3) have "j < length xs0" by simp
    from anchoredD [OF assms(1,2) this j(2)] v0 j(1) show False by simp
  qed
  with assms(3,4) len v0 show ?thesis by (simp add: first_index_Some)
qed

lemma anchored_step:
  assumes a: "anchored P xs0 xs" and U: "\<forall>p\<in>P. unique_match p xs0"
    and p: "p \<in> P" and pn: "prefix p n"
  shows "anchored P xs0 (browser_step p n u xs)"
proof (cases "p = [] \<or> first_index (matches_prefix p) xs = None")
  case True
  with a show ?thesis by (auto simp: browser_step_def)
next
  case False
  then obtain i where pne: "p \<noteq> []" and fi: "first_index (matches_prefix p) xs = Some i" by auto
  from a have len: "length xs = length xs0" by (simp add: anchored_def)
  from fi have i: "i < length xs" "matches_prefix p (xs ! i)" by (simp_all add: first_index_Some)
  from anchored_first_index [OF a p _ i(2)] i(1) len
  have i0: "first_index (matches_prefix p) xs0 = Some i" by simp
  then have m0: "matches_prefix p (xs0 ! i)" by (simp add: first_index_Some)
  have step: "browser_step p n u xs = xs[i := browser_write n u (xs ! i)]"
    using pne fi by (simp add: browser_step_def)
  have nne: "n \<noteq> []" using pne pn by auto
  show ?thesis
    unfolding step anchored_def
  proof (intro conjI ballI allI impI)
    show "length (xs[i := browser_write n u (xs ! i)]) = length xs0" using len by simp
  next
    fix q j
    assume q: "q \<in> P" and j: "j < length (xs[i := browser_write n u (xs ! i)])"
      and m: "matches_prefix q (xs[i := browser_write n u (xs ! i)] ! j)"
    show "first_index (matches_prefix q) xs0 = Some j"
    proof (cases "j = i")
      case False
      with a q j m show ?thesis by (simp add: anchored_def)
    next
      case True
      with m i(1) have qn: "prefix q n" by (simp add: matches_prefix_def browser_write_def)
      from prefix_same_cases [OF qn pn] show ?thesis
      proof
        assume "prefix q p"
        with m0 have "matches_prefix q (xs0 ! i)"
          by (auto simp: matches_prefix_def)
        with U q i(1) len True show ?thesis by (simp add: unique_match_first)
      next
        assume pq: "prefix p q"
        from U q unique_match_ex obtain k where k: "first_index (matches_prefix q) xs0 = Some k"
          by blast
        then have "k < length xs0" "matches_prefix q (xs0 ! k)" by (simp_all add: first_index_Some)
        with pq have "k < length xs0" "matches_prefix p (xs0 ! k)"
          by (auto simp: matches_prefix_def)
        with U p have "first_index (matches_prefix p) xs0 = Some k" by (simp add: unique_match_first)
        with i0 k True show ?thesis by simp
      qed
    qed
  next
    fix j assume j: "j < length (xs[i := browser_write n u (xs ! i)])"
    show "same_base (xs0 ! j) (xs[i := browser_write n u (xs ! i)] ! j)"
      using a j by (cases "j = i") (auto simp: anchored_def same_base_write)
  qed
qed

lemma anchored_lookup:
  assumes a: "anchored P xs0 xs" and p: "p \<in> P"
    and v: "first_index (matches_prefix p) xs0 = Some v"
  shows "first_index (matches_prefix p) xs = (if matches_prefix p (xs ! v) then Some v else None)"
proof (cases "matches_prefix p (xs ! v)")
  case True
  from v have "v < length xs0" by (simp add: first_index_Some)
  from anchored_first_index [OF a p this True] True show ?thesis by simp
next
  case False
  have "\<forall>x\<in>set xs. \<not> matches_prefix p x"
  proof (intro ballI notI)
    fix x assume "x \<in> set xs" "matches_prefix p x"
    then obtain j where j: "j < length xs" "matches_prefix p (xs ! j)"
      by (auto simp: in_set_conv_nth)
    with anchoredD [OF a p _ j(2)] anchored_length [OF a] v have "j = v" by simp
    with j False show False by simp
  qed
  with False show ?thesis by (simp add: first_index_None)
qed

lemma browser_step_anchored:
  assumes a: "anchored P xs0 xs" and p: "p \<in> P" and pne: "p \<noteq> []"
    and v: "first_index (matches_prefix p) xs0 = Some v"
  shows "browser_step p n u xs =
           (if matches_prefix p (xs ! v) then xs[v := browser_write n u (xs ! v)] else xs)"
  using pne by (simp add: browser_step_def anchored_lookup [OF a p v])

lemma same_base_apply:
  assumes "same_base a b" "same_base a c"
  shows "browser_write n u b = browser_write n u c"
  using assms by (simp add: same_base_def)

lemma coupled_step:
  assumes c: "coupled P xs0 fin D s t" and U: "\<forall>p\<in>P. unique_match p xs0"
    and p: "p \<in> P" and pn: "prefix p n"
  shows "\<exists>D'. coupled P xs0 fin D' (browser_step p n u s) (browser_step p n u t)"
proof (cases "p = []")
  case True
  with c show ?thesis by (auto simp: browser_step_def)
next
  case pne: False
  from c have as: "anchored P xs0 s" and at: "anchored P xs0 t" and af: "anchored P xs0 fin"
    and Dv: "\<forall>(p, n)\<in>D. p \<in> P \<and> p \<noteq> [] \<and> prefix p n"
    and b: "\<forall>i<length xs0. src_name (s ! i) = src_name (xs0 ! i)
          \<or> (\<exists>(p, n)\<in>D. first_index (matches_prefix p) xs0 = Some i \<and> src_name (s ! i) = n)"
    and cc: "\<forall>i<length xs0. t ! i = s ! i
          \<or> (t ! i = fin ! i
              \<and> (\<forall>(p, n)\<in>D. first_index (matches_prefix p) xs0 = Some i
                    \<longrightarrow> \<not> matches_prefix p (fin ! i)))"
    by (simp_all add: coupled_def)
  from U p unique_match_ex obtain v where v: "first_index (matches_prefix p) xs0 = Some v"
    by blast
  then have vl: "v < length xs0" and m0: "matches_prefix p (xs0 ! v)"
    by (simp_all add: first_index_Some)
  have ls: "length s = length xs0" and lt: "length t = length xs0"
    using as at by (simp_all add: anchored_length)
  let ?s' = "browser_step p n u s" and ?t' = "browser_step p n u t"
  let ?D' = "insert (p, n) D"
  have s': "?s' = (if matches_prefix p (s ! v) then s[v := browser_write n u (s ! v)] else s)"
    by (rule browser_step_anchored [OF as p pne v])
  have t': "?t' = (if matches_prefix p (t ! v) then t[v := browser_write n u (t ! v)] else t)"
    by (rule browser_step_anchored [OF at p pne v])
  have hit: "matches_prefix p (s ! v)" if mt: "matches_prefix p (fin ! v)"
    and C: "\<forall>(q, m)\<in>D. first_index (matches_prefix q) xs0 = Some v \<longrightarrow> \<not> matches_prefix q (fin ! v)"
  proof -
    from b vl consider "src_name (s ! v) = src_name (xs0 ! v)"
      | q m where "(q, m) \<in> D" "first_index (matches_prefix q) xs0 = Some v" "src_name (s ! v) = m"
      by blast
    then show ?thesis
    proof cases
      case 1
      with m0 show ?thesis by (simp add: matches_prefix_def)
    next
      case 2
      from Dv 2(1) have q: "q \<noteq> []" "prefix q m" by auto
      from 2(2) have "matches_prefix q (xs0 ! v)" by (simp add: first_index_Some)
      with m0 have "prefix q (src_name (xs0 ! v))" "prefix p (src_name (xs0 ! v))"
        by (simp_all add: matches_prefix_def)
      from prefix_same_cases [OF this] show ?thesis
      proof
        assume "prefix q p"
        with mt have "matches_prefix q (fin ! v)" by (auto simp: matches_prefix_def)
        with C 2(1,2) show ?thesis by blast
      next
        assume "prefix p q"
        with q have "prefix p m" "m \<noteq> []" by auto
        with 2(3) show ?thesis by (simp add: matches_prefix_def)
      qed
    qed
  qed
  have "coupled P xs0 fin ?D' ?s' ?t'"
    unfolding coupled_def
  proof (intro conjI)
    show "anchored P xs0 ?s'" by (rule anchored_step [OF as U p pn])
    show "anchored P xs0 ?t'" by (rule anchored_step [OF at U p pn])
    show "anchored P xs0 fin" by (rule af)
    show "\<forall>(p, n)\<in>?D'. p \<in> P \<and> p \<noteq> [] \<and> prefix p n" using Dv p pne pn by simp
    show "\<forall>i<length xs0. src_name (?s' ! i) = src_name (xs0 ! i)
          \<or> (\<exists>(p, n)\<in>?D'. first_index (matches_prefix p) xs0 = Some i \<and> src_name (?s' ! i) = n)"
    proof (intro allI impI)
      fix i assume i: "i < length xs0"
      show "src_name (?s' ! i) = src_name (xs0 ! i)
          \<or> (\<exists>(p, n)\<in>?D'. first_index (matches_prefix p) xs0 = Some i \<and> src_name (?s' ! i) = n)"
      proof (cases "i = v \<and> matches_prefix p (s ! v)")
        case True
        then have "src_name (?s' ! i) = n" using ls vl by (simp add: s' browser_write_def)
        with True v show ?thesis by auto
      next
        case False
        then have "?s' ! i = s ! i" by (auto simp: s')
        with b i show ?thesis by auto
      qed
    qed
    show "\<forall>i<length xs0. ?t' ! i = ?s' ! i
          \<or> (?t' ! i = fin ! i
              \<and> (\<forall>(p, n)\<in>?D'. first_index (matches_prefix p) xs0 = Some i
                    \<longrightarrow> \<not> matches_prefix p (fin ! i)))"
    proof (intro allI impI)
      fix i assume i: "i < length xs0"
      show "?t' ! i = ?s' ! i
          \<or> (?t' ! i = fin ! i
              \<and> (\<forall>(p, n)\<in>?D'. first_index (matches_prefix p) xs0 = Some i
                    \<longrightarrow> \<not> matches_prefix p (fin ! i)))"
      proof (cases "i = v")
        case False
        then have "?t' ! i = t ! i" "?s' ! i = s ! i" by (auto simp: s' t')
        moreover have "first_index (matches_prefix p) xs0 \<noteq> Some i" using v False by simp
        ultimately show ?thesis using cc i by auto
      next
        case True
        from cc vl consider "t ! v = s ! v"
          | "t ! v = fin ! v" "\<forall>(q, m)\<in>D. first_index (matches_prefix q) xs0 = Some v
                \<longrightarrow> \<not> matches_prefix q (fin ! v)"
          by blast
        then show ?thesis
        proof cases
          case 1
          then have "?t' ! v = ?s' ! v" using ls lt vl by (simp add: s' t')
          with True show ?thesis by simp
        next
          case 2
          show ?thesis
          proof (cases "matches_prefix p (fin ! v)")
            case mt: True
            from hit [OF mt 2(2)] have ms: "matches_prefix p (s ! v)" .
            have "browser_write n u (s ! v) = browser_write n u (fin ! v)"
              by (rule same_base_apply [OF anchored_same_base [OF as vl] anchored_same_base [OF af vl]])
            with ms mt 2(1) have "?t' ! v = ?s' ! v" using ls lt vl by (simp add: s' t')
            with True show ?thesis by simp
          next
            case False
            with 2(1) have "?t' ! v = fin ! v" by (simp add: t')
            with False 2(2) True show ?thesis by auto
          qed
        qed
      qed
    qed
  qed
  then show ?thesis by blast
qed

lemma coupled_run:
  assumes "\<forall>(p, n, u)\<in>set steps. p \<in> P \<and> prefix p n" and "\<forall>p\<in>P. unique_match p xs0"
    and "coupled P xs0 (run_steps steps s) D s t"
  shows "run_steps steps t = run_steps steps s"
  using assms
proof (induction steps arbitrary: s t D)
  case Nil
  then have "length t = length s" and "\<forall>i<length s. t ! i = s ! i"
    by (auto simp: coupled_def anchored_def)
  then show ?case by (simp add: list_eq_iff_nth_eq)
next
  case (Cons st steps)
  obtain p n u where st: "st = (p, n, u)" by (cases st)
  from Cons.prems(1) have p: "p \<in> P" "prefix p n"
    and rest: "\<forall>(p, n, u)\<in>set steps. p \<in> P \<and> prefix p n"
    by (auto simp: st)
  from Cons.prems(3) have "coupled P xs0 (run_steps steps (browser_step p n u s)) D s t"
    by (simp add: st)
  from coupled_step [OF this Cons.prems(2) p] obtain D' where
    "coupled P xs0 (run_steps steps (browser_step p n u s)) D'
       (browser_step p n u s) (browser_step p n u t)" by blast
  from Cons.IH [OF rest Cons.prems(2) this] show ?case by (simp add: st)
qed

lemma anchored_run:
  assumes "\<forall>(p, n, u)\<in>set steps. p \<in> P \<and> prefix p n" and "\<forall>p\<in>P. unique_match p xs0"
    and "anchored P xs0 xs"
  shows "anchored P xs0 (run_steps steps xs)"
  using assms
proof (induction steps arbitrary: xs)
  case Nil
  then show ?case by simp
next
  case (Cons st steps)
  obtain p n u where st: "st = (p, n, u)" by (cases st)
  from Cons.prems(1) have p: "p \<in> P" "prefix p n"
    and rest: "\<forall>(p, n, u)\<in>set steps. p \<in> P \<and> prefix p n"
    by (auto simp: st)
  from Cons.IH [OF rest Cons.prems(2) anchored_step [OF Cons.prems(3,2) p]]
  show ?case by (simp add: st)
qed

lemma run_steps_idempotent:
  assumes v: "\<forall>(p, n, u)\<in>set steps. p \<in> P \<and> prefix p n" and U: "\<forall>p\<in>P. unique_match p xs0"
  shows "run_steps steps (run_steps steps xs0) = run_steps steps xs0"
proof -
  have a0: "anchored P xs0 xs0" by (rule anchored_refl [OF U])
  have af: "anchored P xs0 (run_steps steps xs0)" by (rule anchored_run [OF v U a0])
  have "coupled P xs0 (run_steps steps xs0) {} xs0 (run_steps steps xs0)"
    using a0 af by (simp add: coupled_def)
  from coupled_run [OF v U this] show ?thesis .
qed


lemma first_index_cong:
  assumes "length xs = length ys" and "\<forall>i<length xs. Q (xs ! i) = Q (ys ! i)"
  shows "first_index Q xs = first_index Q ys"
proof (cases "first_index Q xs")
  case None
  then have "\<forall>i<length xs. \<not> Q (xs ! i)" by (simp add: first_index_None)
  with assms have "\<forall>y\<in>set ys. \<not> Q y" by (auto simp: in_set_conv_nth)
  then have "first_index Q ys = None" by (simp add: first_index_None)
  with None show ?thesis by simp
next
  case (Some i)
  then have "i < length xs \<and> Q (xs ! i) \<and> (\<forall>j<i. \<not> Q (xs ! j))" by (simp add: first_index_Some)
  with assms have "i < length ys \<and> Q (ys ! i) \<and> (\<forall>j<i. \<not> Q (ys ! j))" by auto
  then have "first_index Q ys = Some i" by (simp add: first_index_Some)
  with Some show ?thesis by simp
qed

lemma text_step_names: "map src_name (text_step ns text xs) = map src_name xs"
proof (cases "first_index (\<lambda>s. src_name s = ns) xs")
  case None
  then show ?thesis by (simp add: text_step_def)
next
  case (Some i)
  then have "i < length xs" by (simp add: first_index_Some)
  then show ?thesis
    using Some by (simp add: text_step_def map_update list_update_same_conv)
qed

lemma unique_match_names:
  assumes "map src_name xs = map src_name ys"
  shows "unique_match p xs = unique_match p ys"
proof -
  have e: "length (filter (matches_prefix p) zs) =
          length (filter (\<lambda>n. n \<noteq> [] \<and> prefix p n) (map src_name zs))" for zs
    by (induction zs) (simp_all add: matches_prefix_def)
  show ?thesis unfolding unique_match_def e by (simp only: assms)
qed


lemma text_step_length: "length (text_step ns txt xs) = length xs"
  using arg_cong [OF text_step_names, of length ns "txt" xs] by simp

lemma text_step_name:
  assumes "i < length xs"
  shows "src_name (text_step ns txt xs ! i) = src_name (xs ! i)"
proof -
  have "map src_name (text_step ns txt xs) ! i = map src_name xs ! i"
    by (simp only: text_step_names)
  with assms show ?thesis by (simp add: text_step_length)
qed

lemma text_step_hit:
  assumes "first_index (\<lambda>s. src_name s = ns) xs = Some h" "ns \<noteq> []"
  shows "text_step ns txt xs = xs[h := (xs ! h)\<lparr>settings := AList.update ''text'' txt (settings (xs ! h))\<rparr>]"
  using assms by (simp add: text_step_def)

lemma text_step_miss:
  assumes "first_index (\<lambda>s. src_name s = ns) xs = None"
  shows "text_step ns txt xs = xs"
  using assms by (simp add: text_step_def)


lemma text_step_again:
  assumes k: "keeps (\<lambda>s. src_name s = ns) (text_step ns txt xs) fin"
  shows "text_step ns txt fin = fin"
proof -
  let ?Q = "\<lambda>s. src_name s = ns"
  let ?xs1 = "text_step ns txt xs"
  from k have len: "length fin = length xs"
    by (simp add: keeps_def text_step_length)
  from k have "\<forall>i<length xs. ?Q (?xs1 ! i) \<or> ?Q (fin ! i) \<longrightarrow> fin ! i = ?xs1 ! i"
    unfolding keeps_def text_step_length by (rule conjunct2)
  then have same: "\<And>i. i < length xs \<Longrightarrow> ?Q (?xs1 ! i) \<or> ?Q (fin ! i) \<Longrightarrow> fin ! i = ?xs1 ! i"
    by blast
  have f1: "first_index ?Q fin = first_index ?Q xs"
  proof (rule first_index_cong [OF len], intro allI impI)
    fix i assume "i < length fin"
    then have i: "i < length xs" using len by simp
    from same [OF i] have "?Q (fin ! i) = ?Q (?xs1 ! i)" by auto
    then show "?Q (fin ! i) = ?Q (xs ! i)" by (simp only: text_step_name [OF i])
  qed
  show ?thesis
  proof (cases "first_index ?Q xs")
    case None
    with f1 show ?thesis by (simp add: text_step_miss)
  next
    case (Some h)
    show ?thesis
    proof (cases "ns = []")
      case True
      then show ?thesis by (simp add: text_step_def)
    next
      case ns: False
      from Some have h: "h < length xs" "src_name (xs ! h) = ns" by (simp_all add: first_index_Some)
      have x1: "?xs1 ! h = (xs ! h)\<lparr>settings := AList.update ''text'' txt (settings (xs ! h))\<rparr>"
        using h(1) by (simp add: text_step_hit [OF Some ns])
      have "src_name (?xs1 ! h) = ns" by (simp only: text_step_name [OF h(1)] h(2))
      with same [OF h(1)] have fh: "fin ! h = ?xs1 ! h" by blast
      have again: "(fin ! h)\<lparr>settings := AList.update ''text'' txt (settings (fin ! h))\<rparr> = fin ! h"
        unfolding fh x1 by simp
      from f1 Some have "first_index ?Q fin = Some h" by simp
      from text_step_hit [OF this ns]
      have "text_step ns txt fin =
          fin[h := (fin ! h)\<lparr>settings := AList.update ''text'' txt (settings (fin ! h))\<rparr>]" .
      then show ?thesis unfolding again by simp
    qed
  qed
qed

text \<open>
  C8, amended: when exactly one source matches each of the four configured prefixes,
  and the name of the team-name text source starts with none of them, applying
  \<open>apply_team_to_sources\<close> twice in a row leaves the sources (names, URLs, texts) as
  applying it once does. A renamed source keeps its prefix, so it stays the one match
  of that prefix and no hypothesis is needed for it. This holds for every team, also
  one with a position too short to read, where both runs stop at the same position.
\<close>

theorem apply_team_to_sources_idempotent:
  assumes U: "\<forall>p\<in>{helm_prefix, mc_prefix, flex_prefix, bilge_prefix}. unique_match p (obs_sources w)"
    and N: "\<forall>p\<in>{helm_prefix, mc_prefix, flex_prefix, bilge_prefix}. \<not> prefix p name_source"
  shows "obs_sources (fst (apply_team_to_sources str_of
            (fst (apply_team_to_sources str_of w team name_source
                    helm_prefix mc_prefix flex_prefix bilge_prefix))
            team name_source helm_prefix mc_prefix flex_prefix bilge_prefix)) =
         obs_sources (fst (apply_team_to_sources str_of w team name_source
                    helm_prefix mc_prefix flex_prefix bilge_prefix))"
proof -
  let ?P = "{helm_prefix, mc_prefix, flex_prefix, bilge_prefix}"
  let ?steps = "team_steps str_of team helm_prefix mc_prefix flex_prefix bilge_prefix"
  let ?xs1 = "text_step name_source (name team) (obs_sources w)"
  let ?fin = "run_steps ?steps ?xs1"
  have v: "\<forall>(p, n, u)\<in>set ?steps. p \<in> ?P \<and> prefix p n"
    using team_steps_prefixes by blast
  have U1: "\<forall>p\<in>?P. unique_match p ?xs1"
    using U unique_match_names [OF text_step_names] by blast
  have "keeps (\<lambda>s. src_name s = name_source) ?xs1 ?fin"
  proof (rule run_steps_keeps)
    show "\<forall>(pfx, n, u)\<in>set ?steps. prefix pfx n
        \<and> (\<forall>s. prefix pfx (src_name s) \<longrightarrow> src_name s \<noteq> name_source)"
      using v N by fastforce
  qed
  then have t: "text_step name_source (name team) ?fin = ?fin" by (rule text_step_again)
  have r: "run_steps ?steps ?fin = ?fin" by (rule run_steps_idempotent [OF v U1])
  show ?thesis unfolding apply_team_to_sources_sources t r ..
qed

theorem apply_team_to_sources_idempotent_witness:
  "unique_match T1_HELM_PREFIX
     [\<lparr>src_name = ''Team 1'', settings = [(''text'', ''old'')]\<rparr>,
      \<lparr>src_name = ''T1H - a'', settings = []\<rparr>, \<lparr>src_name = ''T1MC - b'', settings = []\<rparr>,
      \<lparr>src_name = ''T1F - c'', settings = []\<rparr>, \<lparr>src_name = ''T1B - d'', settings = []\<rparr>]
   \<and> unique_match T1_MC_PREFIX
     [\<lparr>src_name = ''Team 1'', settings = [(''text'', ''old'')]\<rparr>,
      \<lparr>src_name = ''T1H - a'', settings = []\<rparr>, \<lparr>src_name = ''T1MC - b'', settings = []\<rparr>,
      \<lparr>src_name = ''T1F - c'', settings = []\<rparr>, \<lparr>src_name = ''T1B - d'', settings = []\<rparr>]
   \<and> unique_match T1_FLEX_PREFIX
     [\<lparr>src_name = ''Team 1'', settings = [(''text'', ''old'')]\<rparr>,
      \<lparr>src_name = ''T1H - a'', settings = []\<rparr>, \<lparr>src_name = ''T1MC - b'', settings = []\<rparr>,
      \<lparr>src_name = ''T1F - c'', settings = []\<rparr>, \<lparr>src_name = ''T1B - d'', settings = []\<rparr>]
   \<and> unique_match T1_BILGE_PREFIX
     [\<lparr>src_name = ''Team 1'', settings = [(''text'', ''old'')]\<rparr>,
      \<lparr>src_name = ''T1H - a'', settings = []\<rparr>, \<lparr>src_name = ''T1MC - b'', settings = []\<rparr>,
      \<lparr>src_name = ''T1F - c'', settings = []\<rparr>, \<lparr>src_name = ''T1B - d'', settings = []\<rparr>]
   \<and> \<not> prefix T1_HELM_PREFIX T1_NAME_SOURCE
   \<and> \<not> prefix T1_MC_PREFIX T1_NAME_SOURCE
   \<and> \<not> prefix T1_FLEX_PREFIX T1_NAME_SOURCE
   \<and> \<not> prefix T1_BILGE_PREFIX T1_NAME_SOURCE
   \<and> obs_sources (fst (apply_team_to_sources str_of_none
          \<lparr>TEAM_ROSTER = [], obs_sources =
     [\<lparr>src_name = ''Team 1'', settings = [(''text'', ''old'')]\<rparr>,
      \<lparr>src_name = ''T1H - a'', settings = []\<rparr>, \<lparr>src_name = ''T1MC - b'', settings = []\<rparr>,
      \<lparr>src_name = ''T1F - c'', settings = []\<rparr>, \<lparr>src_name = ''T1B - d'', settings = []\<rparr>],
     stdout = []\<rparr>
          \<lparr>name = ''Alpha'', helm = Some [JStr ''X'', JStr ''x1''], flex = None, mc = None, bilge = None\<rparr>
          T1_NAME_SOURCE T1_HELM_PREFIX T1_MC_PREFIX T1_FLEX_PREFIX T1_BILGE_PREFIX)) =
       [\<lparr>src_name = ''Team 1'', settings = [(''text'', ''Alpha'')]\<rparr>,
        \<lparr>src_name = ''T1H - X'', settings = [(''url'', ''https://player.twitch.tv/?channel=x1&enableExtensions=true&muted=false&parent=twitch.tv&player=popout&quality=480p30&volume=0.69'')]\<rparr>,
        \<lparr>src_name = ''T1MC -'', settings = [(''url'', [])]\<rparr>,
        \<lparr>src_name = ''T1F -'', settings = [(''url'', [])]\<rparr>,
        \<lparr>src_name = ''T1B -'', settings = [(''url'', [])]\<rparr>]
   \<and> obs_sources (fst (apply_team_to_sources str_of_none
          (fst (apply_team_to_sources str_of_none
          \<lparr>TEAM_ROSTER = [], obs_sources =
     [\<lparr>src_name = ''Team 1'', settings = [(''text'', ''old'')]\<rparr>,
      \<lparr>src_name = ''T1H - a'', settings = []\<rparr>, \<lparr>src_name = ''T1MC - b'', settings = []\<rparr>,
      \<lparr>src_name = ''T1F - c'', settings = []\<rparr>, \<lparr>src_name = ''T1B - d'', settings = []\<rparr>],
     stdout = []\<rparr>
          \<lparr>name = ''Alpha'', helm = Some [JStr ''X'', JStr ''x1''], flex = None, mc = None, bilge = None\<rparr>
          T1_NAME_SOURCE T1_HELM_PREFIX T1_MC_PREFIX T1_FLEX_PREFIX T1_BILGE_PREFIX))
          \<lparr>name = ''Alpha'', helm = Some [JStr ''X'', JStr ''x1''], flex = None, mc = None, bilge = None\<rparr>
          T1_NAME_SOURCE T1_HELM_PREFIX T1_MC_PREFIX T1_FLEX_PREFIX T1_BILGE_PREFIX)) =
       [\<lparr>src_name = ''Team 1'', settings = [(''text'', ''Alpha'')]\<rparr>,
        \<lparr>src_name = ''T1H - X'', settings = [(''url'', ''https://player.twitch.tv/?channel=x1&enableExtensions=true&muted=false&parent=twitch.tv&player=popout&quality=480p30&volume=0.69'')]\<rparr>,
        \<lparr>src_name = ''T1MC -'', settings = [(''url'', [])]\<rparr>,
        \<lparr>src_name = ''T1F -'', settings = [(''url'', [])]\<rparr>,
        \<lparr>src_name = ''T1B -'', settings = [(''url'', [])]\<rparr>]"
proof -
  let ?w = "\<lparr>TEAM_ROSTER = [], obs_sources =
     [\<lparr>src_name = ''Team 1'', settings = [(''text'', ''old'')]\<rparr>,
      \<lparr>src_name = ''T1H - a'', settings = []\<rparr>, \<lparr>src_name = ''T1MC - b'', settings = []\<rparr>,
      \<lparr>src_name = ''T1F - c'', settings = []\<rparr>, \<lparr>src_name = ''T1B - d'', settings = []\<rparr>],
     stdout = []\<rparr>"
  have U: "\<forall>p\<in>{T1_HELM_PREFIX, T1_MC_PREFIX, T1_FLEX_PREFIX, T1_BILGE_PREFIX}.
      unique_match p (obs_sources ?w)"
    by (simp add: unique_match_def matches_prefix_def T1_HELM_PREFIX_def T1_MC_PREFIX_def
        T1_FLEX_PREFIX_def T1_BILGE_PREFIX_def)
  have N: "\<forall>p\<in>{T1_HELM_PREFIX, T1_MC_PREFIX, T1_FLEX_PREFIX, T1_BILGE_PREFIX}.
      \<not> prefix p T1_NAME_SOURCE"
    by (simp add: T1_NAME_SOURCE_def T1_HELM_PREFIX_def T1_MC_PREFIX_def
        T1_FLEX_PREFIX_def T1_BILGE_PREFIX_def)
  have once: "obs_sources (fst (apply_team_to_sources str_of_none
          \<lparr>TEAM_ROSTER = [], obs_sources =
     [\<lparr>src_name = ''Team 1'', settings = [(''text'', ''old'')]\<rparr>,
      \<lparr>src_name = ''T1H - a'', settings = []\<rparr>, \<lparr>src_name = ''T1MC - b'', settings = []\<rparr>,
      \<lparr>src_name = ''T1F - c'', settings = []\<rparr>, \<lparr>src_name = ''T1B - d'', settings = []\<rparr>],
     stdout = []\<rparr>
          \<lparr>name = ''Alpha'', helm = Some [JStr ''X'', JStr ''x1''], flex = None, mc = None, bilge = None\<rparr>
          T1_NAME_SOURCE T1_HELM_PREFIX T1_MC_PREFIX T1_FLEX_PREFIX T1_BILGE_PREFIX)) =
       [\<lparr>src_name = ''Team 1'', settings = [(''text'', ''Alpha'')]\<rparr>,
        \<lparr>src_name = ''T1H - X'', settings = [(''url'', ''https://player.twitch.tv/?channel=x1&enableExtensions=true&muted=false&parent=twitch.tv&player=popout&quality=480p30&volume=0.69'')]\<rparr>,
        \<lparr>src_name = ''T1MC -'', settings = [(''url'', [])]\<rparr>,
        \<lparr>src_name = ''T1F -'', settings = [(''url'', [])]\<rparr>,
        \<lparr>src_name = ''T1B -'', settings = [(''url'', [])]\<rparr>]"
    by code_simp
  note twice = apply_team_to_sources_idempotent [OF U N, of str_of_none
      "\<lparr>name = ''Alpha'', helm = Some [JStr ''X'', JStr ''x1''], flex = None, mc = None, bilge = None\<rparr>"]
  from U N once twice show ?thesis by simp
qed

text \<open>
  Without the condition on the text source the second run can do more: here the text
  source is named as the helm source is renamed, so the first run finds no text source
  and the second run writes the team name into the renamed helm source.
\<close>

theorem apply_team_twice_counterexample:
  "unique_match T1_HELM_PREFIX [\<lparr>src_name = ''T1H -'', settings = []\<rparr>, \<lparr>src_name = ''T1MC -'', settings = []\<rparr>,
      \<lparr>src_name = ''T1F -'', settings = []\<rparr>, \<lparr>src_name = ''T1B -'', settings = []\<rparr>]
   \<and> unique_match T1_MC_PREFIX [\<lparr>src_name = ''T1H -'', settings = []\<rparr>, \<lparr>src_name = ''T1MC -'', settings = []\<rparr>,
      \<lparr>src_name = ''T1F -'', settings = []\<rparr>, \<lparr>src_name = ''T1B -'', settings = []\<rparr>]
   \<and> unique_match T1_FLEX_PREFIX [\<lparr>src_name = ''T1H -'', settings = []\<rparr>, \<lparr>src_name = ''T1MC -'', settings = []\<rparr>,
      \<lparr>src_name = ''T1F -'', settings = []\<rparr>, \<lparr>src_name = ''T1B -'', settings = []\<rparr>]
   \<and> unique_match T1_BILGE_PREFIX [\<lparr>src_name = ''T1H -'', settings = []\<rparr>, \<lparr>src_name = ''T1MC -'', settings = []\<rparr>,
      \<lparr>src_name = ''T1F -'', settings = []\<rparr>, \<lparr>src_name = ''T1B -'', settings = []\<rparr>]
   \<and> obs_sources (fst (apply_team_to_sources str_of_none
          \<lparr>TEAM_ROSTER = [], obs_sources =
     [\<lparr>src_name = ''T1H -'', settings = []\<rparr>, \<lparr>src_name = ''T1MC -'', settings = []\<rparr>,
      \<lparr>src_name = ''T1F -'', settings = []\<rparr>, \<lparr>src_name = ''T1B -'', settings = []\<rparr>],
     stdout = []\<rparr>
          \<lparr>name = ''Alpha'', helm = Some [JStr ''X'', JStr ''x1''], flex = None, mc = None, bilge = None\<rparr>
          ''T1H - X'' T1_HELM_PREFIX T1_MC_PREFIX T1_FLEX_PREFIX T1_BILGE_PREFIX)) =
       [\<lparr>src_name = ''T1H - X'', settings = [(''url'', ''https://player.twitch.tv/?channel=x1&enableExtensions=true&muted=false&parent=twitch.tv&player=popout&quality=480p30&volume=0.69'')]\<rparr>,
        \<lparr>src_name = ''T1MC -'', settings = [(''url'', [])]\<rparr>,
        \<lparr>src_name = ''T1F -'', settings = [(''url'', [])]\<rparr>,
        \<lparr>src_name = ''T1B -'', settings = [(''url'', [])]\<rparr>]
   \<and> unique_match T1_HELM_PREFIX (obs_sources (fst (apply_team_to_sources str_of_none
          \<lparr>TEAM_ROSTER = [], obs_sources =
     [\<lparr>src_name = ''T1H -'', settings = []\<rparr>, \<lparr>src_name = ''T1MC -'', settings = []\<rparr>,
      \<lparr>src_name = ''T1F -'', settings = []\<rparr>, \<lparr>src_name = ''T1B -'', settings = []\<rparr>],
     stdout = []\<rparr>
          \<lparr>name = ''Alpha'', helm = Some [JStr ''X'', JStr ''x1''], flex = None, mc = None, bilge = None\<rparr>
          ''T1H - X'' T1_HELM_PREFIX T1_MC_PREFIX T1_FLEX_PREFIX T1_BILGE_PREFIX)))
   \<and> unique_match T1_MC_PREFIX (obs_sources (fst (apply_team_to_sources str_of_none
          \<lparr>TEAM_ROSTER = [], obs_sources =
     [\<lparr>src_name = ''T1H -'', settings = []\<rparr>, \<lparr>src_name = ''T1MC -'', settings = []\<rparr>,
      \<lparr>src_name = ''T1F -'', settings = []\<rparr>, \<lparr>src_name = ''T1B -'', settings = []\<rparr>],
     stdout = []\<rparr>
          \<lparr>name = ''Alpha'', helm = Some [JStr ''X'', JStr ''x1''], flex = None, mc = None, bilge = None\<rparr>
          ''T1H - X'' T1_HELM_PREFIX T1_MC_PREFIX T1_FLEX_PREFIX T1_BILGE_PREFIX)))
   \<and> unique_match T1_FLEX_PREFIX (obs_sources (fst (apply_team_to_sources str_of_none
          \<lparr>TEAM_ROSTER = [], obs_sources =
     [\<lparr>src_name = ''T1H -'', settings = []\<rparr>, \<lparr>src_name = ''T1MC -'', settings = []\<rparr>,
      \<lparr>src_name = ''T1F -'', settings = []\<rparr>, \<lparr>src_name = ''T1B -'', settings = []\<rparr>],
     stdout = []\<rparr>
          \<lparr>name = ''Alpha'', helm = Some [JStr ''X'', JStr ''x1''], flex = None, mc = None, bilge = None\<rparr>
          ''T1H - X'' T1_HELM_PREFIX T1_MC_PREFIX T1_FLEX_PREFIX T1_BILGE_PREFIX)))
   \<and> unique_match T1_BILGE_PREFIX (obs_sources (fst (apply_team_to_sources str_of_none
          \<lparr>TEAM_ROSTER = [], obs_sources =
     [\<lparr>src_name = ''T1H -'', settings = []\<rparr>, \<lparr>src_name = ''T1MC -'', settings = []\<rparr>,
      \<lparr>src_name = ''T1F -'', settings = []\<rparr>, \<lparr>src_name = ''T1B -'', settings = []\<rparr>],
     stdout = []\<rparr>
          \<lparr>name = ''Alpha'', helm = Some [JStr ''X'', JStr ''x1''], flex = None, mc = None, bilge = None\<rparr>
          ''T1H - X'' T1_HELM_PREFIX T1_MC_PREFIX T1_FLEX_PREFIX T1_BILGE_PREFIX)))
   \<and> obs_sources (fst (apply_team_to_sources str_of_none
          (fst (apply_team_to_sources str_of_none
          \<lparr>TEAM_ROSTER = [], obs_sources =
     [\<lparr>src_name = ''T1H -'', settings = []\<rparr>, \<lparr>src_name = ''T1MC -'', settings = []\<rparr>,
      \<lparr>src_name = ''T1F -'', settings = []\<rparr>, \<lparr>src_name = ''T1B -'', settings = []\<rparr>],
     stdout = []\<rparr>
          \<lparr>name = ''Alpha'', helm = Some [JStr ''X'', JStr ''x1''], flex = None, mc = None, bilge = None\<rparr>
          ''T1H - X'' T1_HELM_PREFIX T1_MC_PREFIX T1_FLEX_PREFIX T1_BILGE_PREFIX))
          \<lparr>name = ''Alpha'', helm = Some [JStr ''X'', JStr ''x1''], flex = None, mc = None, bilge = None\<rparr>
          ''T1H - X'' T1_HELM_PREFIX T1_MC_PREFIX T1_FLEX_PREFIX T1_BILGE_PREFIX)) =
       [\<lparr>src_name = ''T1H - X'', settings = [(''url'', ''https://player.twitch.tv/?channel=x1&enableExtensions=true&muted=false&parent=twitch.tv&player=popout&quality=480p30&volume=0.69''), (''text'', ''Alpha'')]\<rparr>,
        \<lparr>src_name = ''T1MC -'', settings = [(''url'', [])]\<rparr>,
        \<lparr>src_name = ''T1F -'', settings = [(''url'', [])]\<rparr>,
        \<lparr>src_name = ''T1B -'', settings = [(''url'', [])]\<rparr>]
   \<and> obs_sources (fst (apply_team_to_sources str_of_none
          (fst (apply_team_to_sources str_of_none
          \<lparr>TEAM_ROSTER = [], obs_sources =
     [\<lparr>src_name = ''T1H -'', settings = []\<rparr>, \<lparr>src_name = ''T1MC -'', settings = []\<rparr>,
      \<lparr>src_name = ''T1F -'', settings = []\<rparr>, \<lparr>src_name = ''T1B -'', settings = []\<rparr>],
     stdout = []\<rparr>
          \<lparr>name = ''Alpha'', helm = Some [JStr ''X'', JStr ''x1''], flex = None, mc = None, bilge = None\<rparr>
          ''T1H - X'' T1_HELM_PREFIX T1_MC_PREFIX T1_FLEX_PREFIX T1_BILGE_PREFIX))
          \<lparr>name = ''Alpha'', helm = Some [JStr ''X'', JStr ''x1''], flex = None, mc = None, bilge = None\<rparr>
          ''T1H - X'' T1_HELM_PREFIX T1_MC_PREFIX T1_FLEX_PREFIX T1_BILGE_PREFIX)) \<noteq>
       obs_sources (fst (apply_team_to_sources str_of_none
          \<lparr>TEAM_ROSTER = [], obs_sources =
     [\<lparr>src_name = ''T1H -'', settings = []\<rparr>, \<lparr>src_name = ''T1MC -'', settings = []\<rparr>,
      \<lparr>src_name = ''T1F -'', settings = []\<rparr>, \<lparr>src_name = ''T1B -'', settings = []\<rparr>],
     stdout = []\<rparr>
          \<lparr>name = ''Alpha'', helm = Some [JStr ''X'', JStr ''x1''], flex = None, mc = None, bilge = None\<rparr>
          ''T1H - X'' T1_HELM_PREFIX T1_MC_PREFIX T1_FLEX_PREFIX T1_BILGE_PREFIX))"
  by code_simp

end
